theory Spec2Isabelle
  imports
    Complex_Main
    "HOL-Library.Multiset"
    "HOL-Library.Char_ord"
    "HOL-Library.List_Lexorder"
    "HOL-Library.Product_Lexorder"
    "HOL-Library.Signed_Division"
begin

section \<open>The e-commerce dashboard script, embedded\<close>

text \<open>
  The program is \<^verbatim>\<open>src/dashboard/dashboard_ecommerce.py\<close>: a script that loads a table of
  order rows, keeps the rows of the selected states (\<^verbatim>\<open>df_filtered\<close>) and derives the
  tables behind each chart with pandas calls.  The embedding keeps the script's names.

  \<^item> A cell that pandas holds as NaN, NaT or \<^verbatim>\<open><NA>\<close> is \<open>None\<close>.
  \<^item> A timestamp is its count of nanoseconds since the epoch (pandas' \<^verbatim>\<open>Timestamp.value\<close>),
    a time difference its count of nanoseconds.  Both are unbounded integers here: pandas keeps
    them in 64 bits and refuses a difference outside that range, which is outside this model.
  \<^item> A float (price, latitude, mean) is a rational number: no statement below depends on
    rounding.
  \<^item> The charting calls (\<^verbatim>\<open>px.*\<close>, \<^verbatim>\<open>st.*\<close>) consume the derived tables and are not
    embedded.
\<close>

subsection \<open>Order rows and frames\<close>

type_synonym timestamp = int

definition ns_per_hour :: int where
  "ns_per_hour = 3600 * 1000000000"

definition ns_per_day :: int where
  "ns_per_day = 24 * ns_per_hour"

text \<open>
  One row of the loaded dataset after \<^verbatim>\<open>load_data\<close>, with the columns the script reads.
  Line 23 gives the date columns the datetime type, lines 26--29 give \<^verbatim>\<open>review_score\<close> the
  nullable integer type.
\<close>

record order_row =
  order_id :: "string option"
  customer_id :: "string option"
  customer_state_y :: "string option"
  price :: "rat option"
  order_purchase_timestamp :: "timestamp option"
  order_delivered_carrier_date :: "timestamp option"
  order_delivered_customer_date :: "timestamp option"
  order_estimated_delivery_date :: "timestamp option"
  product_category_name :: "string option"
  product_category_name_english :: "string option"
  order_status_x :: "string option"
  payment_type :: "string option"
  review_score :: "int option"
  seller_city :: "string option"
  customer_city_x :: "string option"
  customer_city_y :: "string option"
  geolocation_lat :: "rat option"
  geolocation_lng :: "rat option"

text \<open>
  \<^verbatim>\<open>df_filtered\<close> is a DataFrame that the script extends in place (lines 258, 272, 388
  and 397): the loaded columns are \<open>rows\<close>, and each column the script adds is \<open>None\<close>
  until the assignment that creates it, then \<open>Some\<close> of its cells, one per row.
\<close>

record frame =
  rows :: "order_row list"
  order_purchase_hour :: "int option list option"
  shipping_time :: "int option list option"
  delivery_delay :: "int option list option"
  delivery_category :: "string option list option"

datatype error = ValueError | TypeError | KeyError | OverflowError

subsection \<open>Series primitives\<close>

text \<open>\<^verbatim>\<open>Series.dropna\<close>: the non-null cells, in order.\<close>

fun dropna :: "'a option list \<Rightarrow> 'a list" where
  "dropna [] = []"
| "dropna (None # xs) = dropna xs"
| "dropna (Some x # xs) = x # dropna xs"

text \<open>\<^verbatim>\<open>Series.unique\<close>: the distinct values in order of first appearance (nulls count
  as one value).\<close>

fun uniques_from :: "'a list \<Rightarrow> 'a list \<Rightarrow> 'a list" where
  "uniques_from seen [] = seen"
| "uniques_from seen (x # xs) =
     (if x \<in> set seen then uniques_from seen xs else uniques_from (seen @ [x]) xs)"

definition unique :: "'a list \<Rightarrow> 'a list" where
  "unique xs = uniques_from [] xs"

text \<open>\<^verbatim>\<open>Series.nunique\<close> (\<^verbatim>\<open>dropna=True\<close>): the number of distinct non-null values.\<close>

definition nunique :: "'a option list \<Rightarrow> nat" where
  "nunique xs = length (unique (dropna xs))"

text \<open>\<^verbatim>\<open>Series.sum\<close> (\<^verbatim>\<open>skipna=True\<close>): nulls are skipped, the empty sum is 0.\<close>

definition series_sum :: "rat option list \<Rightarrow> rat" where
  "series_sum xs = sum_list (dropna xs)"

text \<open>\<^verbatim>\<open>Series.max\<close> (\<^verbatim>\<open>skipna=True\<close>): null when there is no non-null cell.\<close>

definition series_max :: "int option list \<Rightarrow> int option" where
  "series_max xs = (case dropna xs of [] \<Rightarrow> None | v # vs \<Rightarrow> Some (fold max vs v))"

text \<open>\<^verbatim>\<open>Series.mean\<close> of a nullable integer column: nulls are skipped, and the mean of no
  value at all is null (pandas divides nothing by zero).\<close>

definition series_mean :: "int option list \<Rightarrow> rat option" where
  "series_mean xs =
     (let vs = dropna xs
      in if vs = [] then None else Some (of_int (sum_list vs) / of_int (int (length vs))))"

text \<open>\<^verbatim>\<open>Series.isin(values)\<close> and \<^verbatim>\<open>Series.notnull()\<close>: boolean masks.\<close>

definition isin :: "'a list \<Rightarrow> 'a list \<Rightarrow> bool list" where
  "isin col vals = map (\<lambda>x. x \<in> set vals) col"

definition notnull :: "'a option list \<Rightarrow> bool list" where
  "notnull col = map (\<lambda>x. x \<noteq> None) col"

text \<open>\<^verbatim>\<open>df[mask]\<close>: the rows whose mask cell is true, in order, duplicates kept.\<close>

definition boolean_index :: "'r list \<Rightarrow> bool list \<Rightarrow> 'r list" where
  "boolean_index rs msk = map fst (filter snd (zip rs msk))"

subsection \<open>Datetime arithmetic\<close>

text \<open>Subtracting two datetime cells gives a time difference; NaT on either side gives NaT.\<close>

definition ts_sub :: "timestamp option \<Rightarrow> timestamp option \<Rightarrow> int option" where
  "ts_sub a b = (case a of None \<Rightarrow> None | Some x \<Rightarrow> (case b of None \<Rightarrow> None | Some y \<Rightarrow> Some (x - y)))"

definition series_sub :: "timestamp option list \<Rightarrow> timestamp option list \<Rightarrow> int option list" where
  "series_sub xs ys = map (\<lambda>(a, b). ts_sub a b) (zip xs ys)"

text \<open>
  \<^verbatim>\<open>.dt.days\<close>: the days component of a time difference.  pandas normalises a
  difference so that only the days component carries the sign (minus twelve hours is
  \<^verbatim>\<open>-1 days +12:00:00\<close>), which is integer division rounding down.
\<close>

definition dt_days :: "int option list \<Rightarrow> int option list" where
  "dt_days tds = map (map_option (\<lambda>d. d div ns_per_day)) tds"

text \<open>\<^verbatim>\<open>.dt.hour\<close> (0 to 23) and \<^verbatim>\<open>.dt.date\<close> (the calendar day, here its day number).\<close>

definition dt_hour :: "timestamp option list \<Rightarrow> int option list" where
  "dt_hour ts = map (map_option (\<lambda>t. (t div ns_per_hour) mod 24)) ts"

definition dt_date :: "timestamp option \<Rightarrow> int option" where
  "dt_date t = map_option (\<lambda>x. x div ns_per_day) t"

text \<open>\<^verbatim>\<open>pd.to_datetime(col, errors='coerce')\<close> on a column that already has the datetime
  type (lines 384--385) returns its cells as they are.\<close>

definition to_datetime_coerce :: "timestamp option \<Rightarrow> timestamp option" where
  "to_datetime_coerce t = t"

subsection \<open>Group-by\<close>

text \<open>
  \<^verbatim>\<open>df.groupby(key)\<close> with the defaults \<^verbatim>\<open>dropna=True, sort=True\<close>: one group per
  distinct non-null key, the groups in ascending key order, each group holding its rows
  in table order.  The aggregation \<open>agg\<close> is applied to each group.
\<close>

definition group_keys :: "('k::linorder) option list \<Rightarrow> 'k list" where
  "group_keys ks = sort (unique (dropna ks))"

definition groupby_agg ::
  "('r \<Rightarrow> ('k::linorder) option) \<Rightarrow> ('r list \<Rightarrow> 'v) \<Rightarrow> 'r list \<Rightarrow> ('k \<times> 'v) list" where
  "groupby_agg key agg rs =
     map (\<lambda>k. (k, agg (filter (\<lambda>r. key r = Some k) rs))) (group_keys (map key rs))"

text \<open>Grouping by two columns (line 418): a row with a null in either key is dropped.\<close>

definition key2 :: "('r \<Rightarrow> 'a option) \<Rightarrow> ('r \<Rightarrow> 'b option) \<Rightarrow> 'r \<Rightarrow> ('a \<times> 'b) option" where
  "key2 f g r = (case f r of None \<Rightarrow> None | Some a \<Rightarrow> (case g r of None \<Rightarrow> None | Some b \<Rightarrow> Some (a, b)))"

text \<open>\<^verbatim>\<open>left.merge(right, on=key)\<close>: the inner join, in the left table's order.\<close>

definition merge_on :: "('k \<times> 'a) list \<Rightarrow> ('k \<times> 'b) list \<Rightarrow> ('k \<times> 'a \<times> 'b) list" where
  "merge_on l r =
     concat (map (\<lambda>(k, a). map (\<lambda>(k', b). (k, a, b)) (filter (\<lambda>(k', b). k' = k) r)) l)"

subsection \<open>Value counts\<close>

text \<open>
  \<^verbatim>\<open>Series.value_counts()\<close> first counts the non-null values, keyed in order of first
  appearance, and then sorts the counts in descending order with
  \<^verbatim>\<open>sort_values(ascending=False)\<close>.
\<close>

definition value_counts_arraylike :: "'a option list \<Rightarrow> ('a \<times> nat) list" where
  "value_counts_arraylike col =
     (let vs = dropna col in map (\<lambda>v. (v, count_list vs v)) (unique vs))"

text \<open>
  The sort is pandas' \<^verbatim>\<open>nargsort\<close>: for a descending sort it reverses the keys, asks
  numpy for the ascending \<^verbatim>\<open>argsort\<close> of the reversed keys, maps the answer back through
  the reversed positions and reverses the result.  \<^verbatim>\<open>sort_values\<close> is called without
  \<^verbatim>\<open>kind\<close>, so numpy's default \<^verbatim>\<open>quicksort\<close> does the sorting.  numpy's sort is not
  part of the repository; it is the parameter \<open>argsort\<close>, and \<open>argsort_ok\<close> is what numpy
  documents of it: the result is a permutation of the positions that puts the keys in
  ascending order.  The documentation names \<^verbatim>\<open>quicksort\<close> as not stable, so nothing is
  assumed about the order of equal keys.  The next subsection embeds the sort numpy
  runs, for where that order is in question.
\<close>

definition argsort_ok :: "(nat list \<Rightarrow> nat list) \<Rightarrow> bool" where
  "argsort_ok argsort =
     (\<forall>cs. mset (argsort cs) = mset [0..<length cs] \<and> sorted (map (\<lambda>i. cs ! i) (argsort cs)))"

definition nargsort_desc :: "(nat list \<Rightarrow> nat list) \<Rightarrow> nat list \<Rightarrow> nat list" where
  "nargsort_desc argsort cs =
     rev (map (\<lambda>j. rev [0..<length cs] ! j) (argsort (rev cs)))"

definition sort_values_desc :: "(nat list \<Rightarrow> nat list) \<Rightarrow> ('a \<times> nat) list \<Rightarrow> ('a \<times> nat) list" where
  "sort_values_desc argsort xs = map (\<lambda>i. xs ! i) (nargsort_desc argsort (map snd xs))"

definition value_counts :: "(nat list \<Rightarrow> nat list) \<Rightarrow> 'a option list \<Rightarrow> ('a \<times> nat) list" where
  "value_counts argsort col = sort_values_desc argsort (value_counts_arraylike col)"

text \<open>\<^verbatim>\<open>.head(n)\<close>: the first \<open>n\<close> rows.\<close>

definition head :: "nat \<Rightarrow> 'a list \<Rightarrow> 'a list" where
  "head n xs = take n xs"

text \<open>A stable sort meets \<open>argsort_ok\<close>; it is used below where a concrete sort is
  needed and the order of equal keys plays no part.\<close>

definition argsort_stable :: "nat list \<Rightarrow> nat list" where
  "argsort_stable cs = sort_key (\<lambda>i. cs ! i) [0..<length cs]"

subsection \<open>numpy's \<^verbatim>\<open>argsort\<close> with \<^verbatim>\<open>kind='quicksort'\<close>\<close>

text \<open>
  What numpy runs for the counts (64-bit integers) is \<^verbatim>\<open>aquicksort\<close> of
  \<^verbatim>\<open>npysort/quicksort.cpp\<close>, its portable implementation: an indirect quicksort over the
  index array \<^verbatim>\<open>tosort\<close>, with a median of three as pivot, the larger partition pushed
  on a stack, and insertion sort for a partition of at most \<^verbatim>\<open>SMALL_QUICKSORT\<close> + 1
  elements.  The embedding follows the C text loop by loop.  Pointers into \<^verbatim>\<open>tosort\<close>
  are positions (integers, since \<^verbatim>\<open>pr\<close> may fall one below \<^verbatim>\<open>pl\<close>); a read outside
  the array is \<open>None\<close>.  When the depth budget \<^verbatim>\<open>cdepth\<close> is used up the C code
  switches to heap sort, which is not embedded: that case is \<open>None\<close> too.
  (Builds of numpy 1.25 and later that find AVX-512 on the CPU hand 64-bit keys to a
  vectorised sort instead, which orders equal keys in yet another way.)
\<close>

definition SMALL_QUICKSORT :: int where
  "SMALL_QUICKSORT = 16"

text \<open>\<^verbatim>\<open>npy_get_msb\<close>: the position of the highest set bit.\<close>

fun npy_get_msb :: "nat \<Rightarrow> nat" where
  "npy_get_msb n = (if n < 2 then 0 else 1 + npy_get_msb (n div 2))"

declare npy_get_msb.simps [simp del]

text \<open>Reading \<^verbatim>\<open>tosort[p]\<close> and \<^verbatim>\<open>v[tosort[p]]\<close>, and \<^verbatim>\<open>INTP_SWAP\<close>.\<close>

definition read_at :: "'a list \<Rightarrow> int \<Rightarrow> 'a option" where
  "read_at xs i = (if 0 \<le> i \<and> i < int (length xs) then Some (xs ! nat i) else None)"

definition key_at :: "nat list \<Rightarrow> nat list \<Rightarrow> int \<Rightarrow> nat option" where
  "key_at v tosort p = (case read_at tosort p of None \<Rightarrow> None | Some i \<Rightarrow> read_at v (int i))"

definition INTP_SWAP :: "nat list \<Rightarrow> int \<Rightarrow> int \<Rightarrow> nat list option" where
  "INTP_SWAP tosort p q =
     (case read_at tosort p of None \<Rightarrow> None | Some a \<Rightarrow>
      case read_at tosort q of None \<Rightarrow> None | Some b \<Rightarrow>
        Some (tosort[nat p := b, nat q := a]))"

text \<open>\<^verbatim>\<open>if (LT(v[*p], v[*q])) INTP_SWAP(*p, *q)\<close>, used three times for the median.\<close>

definition swap_if_less :: "nat list \<Rightarrow> nat list \<Rightarrow> int \<Rightarrow> int \<Rightarrow> nat list option" where
  "swap_if_less v tosort p q =
     (case key_at v tosort p of None \<Rightarrow> None | Some a \<Rightarrow>
      case key_at v tosort q of None \<Rightarrow> None | Some b \<Rightarrow>
        if a < b then INTP_SWAP tosort p q else Some tosort)"

text \<open>\<^verbatim>\<open>do { ++pi; } while (LT(v[*pi], vp))\<close> and
  \<^verbatim>\<open>do { --pj; } while (LT(vp, v[*pj]))\<close>.\<close>

partial_function (option) scan_up :: "nat list \<Rightarrow> nat list \<Rightarrow> nat \<Rightarrow> int \<Rightarrow> int option" where
  "scan_up v tosort vp ip =
     (case key_at v tosort (ip + 1) of
        None \<Rightarrow> None
      | Some k \<Rightarrow> if k < vp then scan_up v tosort vp (ip + 1) else Some (ip + 1))"

partial_function (option) scan_down :: "nat list \<Rightarrow> nat list \<Rightarrow> nat \<Rightarrow> int \<Rightarrow> int option" where
  "scan_down v tosort vp jp =
     (case key_at v tosort (jp - 1) of
        None \<Rightarrow> None
      | Some k \<Rightarrow> if vp < k then scan_down v tosort vp (jp - 1) else Some (jp - 1))"

text \<open>The partition loop: scan from both ends, stop when the scans meet, swap
  otherwise.\<close>

partial_function (option) partition_loop ::
  "nat list \<Rightarrow> nat list \<Rightarrow> nat \<Rightarrow> int \<Rightarrow> int \<Rightarrow> (nat list \<times> int) option" where
  "partition_loop v tosort vp ip jp =
     (case scan_up v tosort vp ip of None \<Rightarrow> None | Some ip' \<Rightarrow>
      case scan_down v tosort vp jp of None \<Rightarrow> None | Some jp' \<Rightarrow>
        if ip' \<ge> jp' then Some (tosort, ip')
        else (case INTP_SWAP tosort ip' jp' of
                None \<Rightarrow> None
              | Some tosort' \<Rightarrow> partition_loop v tosort' vp ip' jp'))"

text \<open>Insertion sort of \<^verbatim>\<open>tosort[pl..pr]\<close>: the inner \<^verbatim>\<open>while\<close> shifts the
  entries with a larger key one place up, the outer \<^verbatim>\<open>for\<close> inserts each entry.\<close>

partial_function (option) shift_loop ::
  "nat list \<Rightarrow> nat list \<Rightarrow> nat \<Rightarrow> int \<Rightarrow> int \<Rightarrow> (nat list \<times> int) option" where
  "shift_loop v tosort vp pl jp =
     (if jp > pl then
        (case key_at v tosort (jp - 1) of
           None \<Rightarrow> None
         | Some k \<Rightarrow>
             if vp < k then
               (case read_at tosort (jp - 1) of
                  None \<Rightarrow> None
                | Some i \<Rightarrow> shift_loop v (tosort[nat jp := i]) vp pl (jp - 1))
             else Some (tosort, jp))
      else Some (tosort, jp))"

partial_function (option) insertion_sort ::
  "nat list \<Rightarrow> nat list \<Rightarrow> int \<Rightarrow> int \<Rightarrow> int \<Rightarrow> nat list option" where
  "insertion_sort v tosort pl pr ip =
     (if ip \<le> pr then
        (case read_at tosort ip of None \<Rightarrow> None | Some vi \<Rightarrow>
         case read_at v (int vi) of None \<Rightarrow> None | Some vp \<Rightarrow>
         case shift_loop v tosort vp pl ip of None \<Rightarrow> None | Some (tosort', jp) \<Rightarrow>
           insertion_sort v (tosort'[nat jp := vi]) pl pr (ip + 1))
      else Some tosort)"

text \<open>One pass of the \<^verbatim>\<open>while ((pr - pl) > SMALL_QUICKSORT)\<close> body up to the final
  swap of the pivot into place: the new \<^verbatim>\<open>tosort\<close> and the pivot's position.\<close>

definition partition_step ::
  "nat list \<Rightarrow> nat list \<Rightarrow> int \<Rightarrow> int \<Rightarrow> (nat list \<times> int) option" where
  "partition_step v tosort pl pr =
     (let pm = pl + (pr - pl) div 2 in
      case swap_if_less v tosort pm pl of None \<Rightarrow> None | Some t1 \<Rightarrow>
      case swap_if_less v t1 pr pm of None \<Rightarrow> None | Some t2 \<Rightarrow>
      case swap_if_less v t2 pm pl of None \<Rightarrow> None | Some t3 \<Rightarrow>
      case key_at v t3 pm of None \<Rightarrow> None | Some vp \<Rightarrow>
      case INTP_SWAP t3 pm (pr - 1) of None \<Rightarrow> None | Some t4 \<Rightarrow>
      case partition_loop v t4 vp pl (pr - 1) of None \<Rightarrow> None | Some (t5, ip) \<Rightarrow>
      case INTP_SWAP t5 ip (pr - 1) of None \<Rightarrow> None | Some t6 \<Rightarrow> Some (t6, ip))"

text \<open>
  The outer \<^verbatim>\<open>while (1)\<close>.  \<open>check\<close> is true at the head of that loop, where the C code
  tests \<^verbatim>\<open>cdepth < 0\<close>, and false while the inner \<^verbatim>\<open>while\<close> goes on.  The stack holds
  the bounds of the postponed partition with the depth budget saved for it.
\<close>

partial_function (option) aquicksort_loop ::
  "nat list \<Rightarrow> bool \<Rightarrow> nat list \<Rightarrow> int \<Rightarrow> int \<Rightarrow> (int \<times> int \<times> int) list \<Rightarrow> int \<Rightarrow> nat list option" where
  "aquicksort_loop v check tosort pl pr stack cdepth =
     (if check \<and> cdepth < 0 then None
      else if pr - pl > SMALL_QUICKSORT then
        (case partition_step v tosort pl pr of
           None \<Rightarrow> None
         | Some (tosort', ip) \<Rightarrow>
             if ip - pl < pr - ip
             then aquicksort_loop v False tosort' pl (ip - 1) ((ip + 1, pr, cdepth - 1) # stack) (cdepth - 1)
             else aquicksort_loop v False tosort' (ip + 1) pr ((pl, ip - 1, cdepth - 1) # stack) (cdepth - 1))
      else
        (case insertion_sort v tosort pl pr (pl + 1) of
           None \<Rightarrow> None
         | Some tosort' \<Rightarrow>
             (case stack of
                [] \<Rightarrow> Some tosort'
              | (pl', pr', d) # rest \<Rightarrow> aquicksort_loop v True tosort' pl' pr' rest d)))"

text \<open>\<^verbatim>\<open>np.argsort\<close> fills \<^verbatim>\<open>tosort\<close> with 0, 1, 2, ... and calls \<^verbatim>\<open>aquicksort\<close> with
  \<^verbatim>\<open>cdepth = npy_get_msb(num) * 2\<close>.\<close>

definition aquicksort :: "nat list \<Rightarrow> nat list option" where
  "aquicksort v =
     aquicksort_loop v True [0..<length v] 0 (int (length v) - 1) []
       (int (npy_get_msb (length v)) * 2)"

declare scan_up.simps [code] scan_down.simps [code] partition_loop.simps [code]
  shift_loop.simps [code] insertion_sort.simps [code] aquicksort_loop.simps [code]

text \<open>The sort as a function for the parameter \<open>argsort\<close>: the permutation \<open>aquicksort\<close>
  returns.  Where the embedding has none, nothing is said about the value.\<close>

definition npy_argsort :: "nat list \<Rightarrow> nat list" where
  "npy_argsort v = the (aquicksort v)"

subsection \<open>Binning with \<^verbatim>\<open>pd.cut\<close>\<close>

text \<open>
  A bin edge is a float; the script's edges are \<^verbatim>\<open>-inf, 0, 2, inf\<close>.  \<^verbatim>\<open>pd.cut\<close> with
  the default \<^verbatim>\<open>right=True\<close> finds the bin of a value by \<^verbatim>\<open>searchsorted(side='left')\<close>,
  the number of edges strictly below the value: position 0 (the value is not above the
  first edge) and position \<^verbatim>\<open>len(bins)\<close> (the value is above the last edge) give a null,
  position \<open>i\<close> gives label \<open>i - 1\<close>.  A null value gives a null.  It raises
  \<^verbatim>\<open>ValueError\<close> when the edges do not increase or the labels are not one fewer than the
  edges.
\<close>

datatype edge = NegInf | Fin int | PosInf

fun edge_less :: "edge \<Rightarrow> edge \<Rightarrow> bool" where
  "edge_less NegInf NegInf = False"
| "edge_less NegInf (Fin b) = True"
| "edge_less NegInf PosInf = True"
| "edge_less (Fin a) NegInf = False"
| "edge_less (Fin a) (Fin b) = (a < b)"
| "edge_less (Fin a) PosInf = True"
| "edge_less PosInf e = False"

fun increasing :: "edge list \<Rightarrow> bool" where
  "increasing [] = True"
| "increasing [e] = True"
| "increasing (e # f # es) = (edge_less e f \<and> increasing (f # es))"

definition searchsorted_left :: "edge list \<Rightarrow> int \<Rightarrow> nat" where
  "searchsorted_left bins x = length (takeWhile (\<lambda>e. edge_less e (Fin x)) bins)"

definition bin_label :: "edge list \<Rightarrow> 'l list \<Rightarrow> int option \<Rightarrow> 'l option" where
  "bin_label bins labels x =
     (case x of
        None \<Rightarrow> None
      | Some v \<Rightarrow>
          (let ids = searchsorted_left bins v
           in if ids = 0 \<or> ids = length bins then None else Some (labels ! (ids - 1))))"

definition pd_cut :: "int option list \<Rightarrow> edge list \<Rightarrow> 'l list \<Rightarrow> error + 'l option list" where
  "pd_cut col bins labels =
     (if \<not> increasing bins then Inl ValueError
      else if length labels + 1 \<noteq> length bins then Inl ValueError
      else Inr (map (bin_label bins labels) col))"

subsection \<open>\<^verbatim>\<open>astype('Int64')\<close>\<close>

text \<open>
  \<^verbatim>\<open>pd.read_csv\<close> gives a column the type \<^verbatim>\<open>int64\<close> when every cell is an integer
  literal, \<^verbatim>\<open>float64\<close> when every cell is a number or missing, and \<^verbatim>\<open>object\<close> (the cell
  texts, missing cells as NaN) otherwise.
\<close>

datatype column = IntCol "int list" | FloatCol "rat option list" | ObjectCol "string option list"

text \<open>Python's \<^verbatim>\<open>int(s)\<close> on a text: blanks around it are dropped, then an optional sign
  and decimal digits, single underscores allowed between digits; \<open>None\<close> where Python
  raises \<^verbatim>\<open>ValueError\<close>.\<close>

definition is_space :: "char \<Rightarrow> bool" where
  "is_space c = (c \<in> set [CHR '' '', CHR 0x09, CHR 0x0A, CHR 0x0B, CHR 0x0C, CHR 0x0D])"

definition is_digit :: "char \<Rightarrow> bool" where
  "is_digit c = (c \<in> set ''0123456789'')"

definition digit_val :: "char \<Rightarrow> nat" where
  "digit_val c = of_char c - 48"

definition strip :: "string \<Rightarrow> string" where
  "strip s = rev (dropWhile is_space (rev (dropWhile is_space s)))"

fun py_digits :: "nat \<Rightarrow> bool \<Rightarrow> string \<Rightarrow> nat option" where
  "py_digits acc prev [] = (if prev then Some acc else None)"
| "py_digits acc prev (c # cs) =
     (if is_digit c then py_digits (10 * acc + digit_val c) True cs
      else if c = CHR ''_'' \<and> prev then py_digits acc False cs
      else None)"

definition py_int :: "string \<Rightarrow> int option" where
  "py_int s =
     (case strip s of
        [] \<Rightarrow> None
      | c # cs \<Rightarrow>
          if c = CHR ''-'' then map_option (\<lambda>n. - int n) (py_digits 0 False cs)
          else if c = CHR ''+'' then map_option int (py_digits 0 False cs)
          else map_option int (py_digits 0 False (c # cs)))"

definition in_int64 :: "int \<Rightarrow> bool" where
  "in_int64 n = (- (2 ^ 63) \<le> n \<and> n < 2 ^ 63)"

text \<open>
  The conversion of one cell.  A missing cell becomes null.  A float must equal the
  integer it is cast to (pandas: \<^verbatim>\<open>TypeError: cannot safely cast non-equivalent float64
  to int64\<close>).  A text is cast with \<^verbatim>\<open>int\<close> and raises \<^verbatim>\<open>ValueError\<close> when it is not an
  integer literal.
\<close>

definition float_cell_Int64 :: "rat option \<Rightarrow> error + int option" where
  "float_cell_Int64 x =
     (case x of
        None \<Rightarrow> Inr None
      | Some q \<Rightarrow> if of_int \<lfloor>q\<rfloor> = q \<and> in_int64 \<lfloor>q\<rfloor> then Inr (Some \<lfloor>q\<rfloor>) else Inl TypeError)"

definition object_cell_Int64 :: "string option \<Rightarrow> error + int option" where
  "object_cell_Int64 x =
     (case x of
        None \<Rightarrow> Inr None
      | Some s \<Rightarrow>
          (case py_int s of
             None \<Rightarrow> Inl ValueError
           | Some n \<Rightarrow> if in_int64 n then Inr (Some n) else Inl OverflowError))"

text \<open>A column converts when every cell does; the first cell that does not raises.\<close>

fun sequence :: "(error + 'a) list \<Rightarrow> error + 'a list" where
  "sequence [] = Inr []"
| "sequence (Inl e # xs) = Inl e"
| "sequence (Inr v # xs) = (case sequence xs of Inl e \<Rightarrow> Inl e | Inr vs \<Rightarrow> Inr (v # vs))"

fun astype_Int64 :: "column \<Rightarrow> error + int option list" where
  "astype_Int64 (IntCol xs) = Inr (map Some xs)"
| "astype_Int64 (FloatCol xs) = sequence (map float_cell_Int64 xs)"
| "astype_Int64 (ObjectCol xs) = sequence (map object_cell_Int64 xs)"

text \<open>Lines 26--29 of \<^verbatim>\<open>load_data\<close>: the four conversions, in the script's order.\<close>

record numeric_columns =
  product_photos_qty :: "int option list"
  payment_sequential :: "int option list"
  payment_installments :: "int option list"
  review_scores :: "int option list"

definition load_data_numeric ::
  "column \<Rightarrow> column \<Rightarrow> column \<Rightarrow> column \<Rightarrow> error + numeric_columns" where
  "load_data_numeric photos sequential installments scores =
     (case astype_Int64 photos of Inl e \<Rightarrow> Inl e | Inr a \<Rightarrow>
      case astype_Int64 sequential of Inl e \<Rightarrow> Inl e | Inr b \<Rightarrow>
      case astype_Int64 installments of Inl e \<Rightarrow> Inl e | Inr c \<Rightarrow>
      case astype_Int64 scores of Inl e \<Rightarrow> Inl e | Inr d \<Rightarrow>
        Inr \<lparr>product_photos_qty = a, payment_sequential = b,
             payment_installments = c, review_scores = d\<rparr>)"

subsection \<open>Grouping by a categorical column\<close>

text \<open>
  \<^verbatim>\<open>pd.cut\<close> returns a categorical column whose categories are the labels, in the order
  given.  \<^verbatim>\<open>groupby\<close> on a categorical key has the parameter \<^verbatim>\<open>observed\<close>: with
  \<^verbatim>\<open>observed=False\<close> the result has one row per category, present in the data or not, and
  with \<^verbatim>\<open>observed=True\<close> one row per category that some row has.  The groups come in
  category order; rows with a null key are in no group.
\<close>

definition groupby_categorical_mean ::
  "bool \<Rightarrow> 'c list \<Rightarrow> 'c option list \<Rightarrow> int option list \<Rightarrow> ('c \<times> rat option) list" where
  "groupby_categorical_mean observed categories keys vals =
     map (\<lambda>c. (c, series_mean (map snd (filter (\<lambda>(k, v). k = Some c) (zip keys vals)))))
       (if observed then filter (\<lambda>c. Some c \<in> set keys) categories else categories)"

text \<open>The script does not pass \<^verbatim>\<open>observed\<close> (line 404), so the library's default
  applies: \<^verbatim>\<open>False\<close> in the pandas releases before 3.0.\<close>

definition observed_default :: bool where
  "observed_default = False"

subsection \<open>The script\<close>

text \<open>Lines 44--51.  The sidebar offers the distinct states of the loaded table and
  selects all of them by default; \<open>state_filter\<close> is the selection.\<close>

definition state_options :: "order_row list \<Rightarrow> string option list" where
  "state_options final_dataset = unique (map customer_state_y final_dataset)"

definition df_filtered :: "order_row list \<Rightarrow> string option list \<Rightarrow> frame" where
  "df_filtered final_dataset state_filter =
     \<lparr>rows = boolean_index final_dataset (isin (map customer_state_y final_dataset) state_filter),
      order_purchase_hour = None, shipping_time = None,
      delivery_delay = None, delivery_category = None\<rparr>"

text \<open>Lines 66--67: the summary metrics.\<close>

definition total_orders :: "frame \<Rightarrow> nat" where
  "total_orders df = nunique (map order_id (rows df))"

definition total_revenue :: "frame \<Rightarrow> rat" where
  "total_revenue df = series_sum (map price (rows df))"

text \<open>Lines 83 and 97--100: the daily tables, grouped by the date of purchase.\<close>

definition daily_orders :: "frame \<Rightarrow> (int \<times> nat) list" where
  "daily_orders df =
     groupby_agg (\<lambda>r. dt_date (order_purchase_timestamp r)) (\<lambda>g. nunique (map order_id g)) (rows df)"

definition daily_revenue :: "frame \<Rightarrow> (int \<times> rat \<times> nat) list" where
  "daily_revenue df =
     groupby_agg (\<lambda>r. dt_date (order_purchase_timestamp r))
       (\<lambda>g. (series_sum (map price g), nunique (map order_id g))) (rows df)"

text \<open>Lines 153, 168, 183, 198, 213, 228 and 243: the frequency tables.\<close>

definition top10_product_categories :: "(nat list \<Rightarrow> nat list) \<Rightarrow> frame \<Rightarrow> (string \<times> nat) list" where
  "top10_product_categories argsort df =
     head 10 (value_counts argsort (map product_category_name (rows df)))"

definition order_status_counts :: "(nat list \<Rightarrow> nat list) \<Rightarrow> frame \<Rightarrow> (string \<times> nat) list" where
  "order_status_counts argsort df = value_counts argsort (map order_status_x (rows df))"

definition payment_type_counts :: "(nat list \<Rightarrow> nat list) \<Rightarrow> frame \<Rightarrow> (string \<times> nat) list" where
  "payment_type_counts argsort df = value_counts argsort (map payment_type (rows df))"

definition review_score_counts :: "(nat list \<Rightarrow> nat list) \<Rightarrow> frame \<Rightarrow> (int \<times> nat) list" where
  "review_score_counts argsort df = value_counts argsort (map review_score (rows df))"

definition top10_seller_cities :: "(nat list \<Rightarrow> nat list) \<Rightarrow> frame \<Rightarrow> (string \<times> nat) list" where
  "top10_seller_cities argsort df =
     head 10 (value_counts argsort (map seller_city (rows df)))"

definition top10_customer_cities :: "(nat list \<Rightarrow> nat list) \<Rightarrow> frame \<Rightarrow> (string \<times> nat) list" where
  "top10_customer_cities argsort df =
     head 10 (value_counts argsort (map customer_city_x (rows df)))"

definition top10_product_categories_en :: "(nat list \<Rightarrow> nat list) \<Rightarrow> frame \<Rightarrow> (string \<times> nat) list" where
  "top10_product_categories_en argsort df =
     head 10 (value_counts argsort (map product_category_name_english (rows df)))"

text \<open>Line 258: the hour of purchase, stored as a new column of \<^verbatim>\<open>df_filtered\<close>.\<close>

definition purchase_hour_step :: "frame \<Rightarrow> frame" where
  "purchase_hour_step df =
     df\<lparr>order_purchase_hour := Some (dt_hour (map order_purchase_timestamp (rows df)))\<rparr>"

text \<open>Line 272: the shipping duration, stored as a new column of \<^verbatim>\<open>df_filtered\<close>.\<close>

definition shipping_time_step :: "frame \<Rightarrow> frame" where
  "shipping_time_step df =
     df\<lparr>shipping_time :=
          Some (dt_days (series_sub (map order_delivered_customer_date (rows df))
                                    (map order_delivered_carrier_date (rows df))))\<rparr>"

text \<open>Lines 291--306: the RFM table.  \<open>now\<close> is the value of \<^verbatim>\<open>pd.Timestamp.now()\<close>.\<close>

definition recency :: "timestamp \<Rightarrow> frame \<Rightarrow> (string \<times> timestamp option \<times> int option) list" where
  "recency now df =
     (let g = groupby_agg customer_id (\<lambda>g. series_max (map order_purchase_timestamp g)) (rows df);
          days = dt_days (map (\<lambda>m. ts_sub (Some now) m) (map snd g))
      in map (\<lambda>((c, m), d). (c, m, d)) (zip g days))"

definition frequency :: "frame \<Rightarrow> (string \<times> nat) list" where
  "frequency df = groupby_agg customer_id (\<lambda>g. nunique (map order_id g)) (rows df)"

definition monetary :: "frame \<Rightarrow> (string \<times> rat) list" where
  "monetary df = groupby_agg customer_id (\<lambda>g. series_sum (map price g)) (rows df)"

definition rfm ::
  "timestamp \<Rightarrow> frame \<Rightarrow> (string \<times> ((timestamp option \<times> int option) \<times> nat) \<times> rat) list" where
  "rfm now df = merge_on (merge_on (recency now df) (frequency df)) (monetary df)"

text \<open>Lines 328--336: the points of the map, one per row.\<close>

definition geo_points :: "frame \<Rightarrow> (rat option \<times> rat option \<times> string option) list" where
  "geo_points df = map (\<lambda>r. (geolocation_lat r, geolocation_lng r, customer_city_y r)) (rows df)"

text \<open>Lines 358--361: revenue and orders per state.\<close>

definition cluster_data :: "frame \<Rightarrow> (string \<times> rat \<times> nat) list" where
  "cluster_data df =
     groupby_agg customer_state_y
       (\<lambda>g. (series_sum (map price g), nunique (map order_id g))) (rows df)"

text \<open>Lines 384--385: the two date columns are converted again, in place.\<close>

definition redo_datetime_step :: "frame \<Rightarrow> frame" where
  "redo_datetime_step df =
     df\<lparr>rows :=
          map (\<lambda>r. r\<lparr>order_delivered_customer_date :=
                         to_datetime_coerce (order_delivered_customer_date r),
                      order_estimated_delivery_date :=
                         to_datetime_coerce (order_estimated_delivery_date r)\<rparr>)
            (rows df)\<rparr>"

text \<open>Line 388: the delivery delay, a new column.  (The list \<^verbatim>\<open>conditions\<close> of lines
  391--395 is built and never used.)\<close>

definition delivery_delay_step :: "frame \<Rightarrow> frame" where
  "delivery_delay_step df =
     df\<lparr>delivery_delay :=
          Some (dt_days (series_sub (map order_delivered_customer_date (rows df))
                                    (map order_estimated_delivery_date (rows df))))\<rparr>"

text \<open>Lines 396--401: the delivery category, a new column cut from the delay.\<close>

definition choices :: "string list" where
  "choices = [''On Time'', ''Delayed 1-2 Days'', ''Delayed More Than 2 Days'']"

definition bins :: "edge list" where
  "bins = [NegInf, Fin 0, Fin 2, PosInf]"

definition delivery_category_step :: "frame \<Rightarrow> error + frame" where
  "delivery_category_step df =
     (case delivery_delay df of
        None \<Rightarrow> Inl KeyError
      | Some delays \<Rightarrow>
          (case pd_cut delays bins choices of
             Inl e \<Rightarrow> Inl e
           | Inr cats \<Rightarrow> Inr (df\<lparr>delivery_category := Some cats\<rparr>)))"

text \<open>Line 404: the mean review score of each delivery category.\<close>

definition average_review_scores :: "frame \<Rightarrow> error + (string \<times> rat option) list" where
  "average_review_scores df =
     (case delivery_category df of
        None \<Rightarrow> Inl KeyError
      | Some cats \<Rightarrow>
          Inr (groupby_categorical_mean observed_default choices cats (map review_score (rows df))))"

text \<open>Lines 417--418: the mean review score of each pair of order status and payment
  type, over the rows that have a review score.\<close>

definition review_summary :: "frame \<Rightarrow> ((string \<times> string) \<times> rat option) list" where
  "review_summary df =
     groupby_agg (key2 order_status_x payment_type) (\<lambda>g. series_mean (map review_score g))
       (boolean_index (rows df) (notnull (map review_score (rows df))))"

text \<open>The whole script from line 51 on: every derived table, and \<^verbatim>\<open>df_filtered\<close> as the
  script leaves it.\<close>

record dashboard =
  out_total_orders :: nat
  out_total_revenue :: rat
  out_daily_orders :: "(int \<times> nat) list"
  out_daily_revenue :: "(int \<times> rat \<times> nat) list"
  out_top10_product_categories :: "(string \<times> nat) list"
  out_order_status_counts :: "(string \<times> nat) list"
  out_payment_type_counts :: "(string \<times> nat) list"
  out_review_score_counts :: "(int \<times> nat) list"
  out_top10_seller_cities :: "(string \<times> nat) list"
  out_top10_customer_cities :: "(string \<times> nat) list"
  out_top10_product_categories_en :: "(string \<times> nat) list"
  out_rfm :: "(string \<times> ((timestamp option \<times> int option) \<times> nat) \<times> rat) list"
  out_geo_points :: "(rat option \<times> rat option \<times> string option) list"
  out_cluster_data :: "(string \<times> rat \<times> nat) list"
  out_average_review_scores :: "(string \<times> rat option) list"
  out_review_summary :: "((string \<times> string) \<times> rat option) list"
  out_df_filtered :: frame

definition script ::
  "timestamp \<Rightarrow> (nat list \<Rightarrow> nat list) \<Rightarrow> order_row list \<Rightarrow> string option list \<Rightarrow> error + dashboard" where
  "script now argsort final_dataset state_filter =
     (let df0 = df_filtered final_dataset state_filter;
          df1 = purchase_hour_step df0;
          df2 = shipping_time_step df1;
          df3 = delivery_delay_step (redo_datetime_step df2)
      in case delivery_category_step df3 of
           Inl e \<Rightarrow> Inl e
         | Inr df4 \<Rightarrow>
             (case average_review_scores df4 of
                Inl e \<Rightarrow> Inl e
              | Inr avg \<Rightarrow>
                  Inr \<lparr>out_total_orders = total_orders df0,
                       out_total_revenue = total_revenue df0,
                       out_daily_orders = daily_orders df0,
                       out_daily_revenue = daily_revenue df0,
                       out_top10_product_categories = top10_product_categories argsort df0,
                       out_order_status_counts = order_status_counts argsort df0,
                       out_payment_type_counts = payment_type_counts argsort df0,
                       out_review_score_counts = review_score_counts argsort df0,
                       out_top10_seller_cities = top10_seller_cities argsort df0,
                       out_top10_customer_cities = top10_customer_cities argsort df0,
                       out_top10_product_categories_en = top10_product_categories_en argsort df0,
                       out_rfm = rfm now df2,
                       out_geo_points = geo_points df2,
                       out_cluster_data = cluster_data df2,
                       out_average_review_scores = avg,
                       out_review_summary = review_summary df4,
                       out_df_filtered = df4\<rparr>))"

subsection \<open>Sample rows\<close>

text \<open>A row with every cell null, the base of the concrete tables used below.\<close>

definition blank_row :: order_row where
  "blank_row =
     \<lparr>order_id = None, customer_id = None, customer_state_y = None, price = None,
      order_purchase_timestamp = None, order_delivered_carrier_date = None,
      order_delivered_customer_date = None, order_estimated_delivery_date = None,
      product_category_name = None, product_category_name_english = None,
      order_status_x = None, payment_type = None, review_score = None,
      seller_city = None, customer_city_x = None, customer_city_y = None,
      geolocation_lat = None, geolocation_lng = None\<rparr>"

text \<open>A frame of the given rows to which the script has added no column yet.\<close>

definition frame_of :: "order_row list \<Rightarrow> frame" where
  "frame_of rs =
     \<lparr>rows = rs, order_purchase_hour = None, shipping_time = None,
      delivery_delay = None, delivery_category = None\<rparr>"

text \<open>
  Four rows: two items of order \<open>o1\<close> of customer \<open>c1\<close>, delivered twelve hours before
  the estimated date; order \<open>o2\<close> of customer \<open>c2\<close>, delivered two days and one hour after
  it and without a review; and order \<open>o3\<close> of customer \<open>c1\<close>, not delivered, with no state.
\<close>

definition row1 :: order_row where
  "row1 = blank_row
     \<lparr>order_id := Some ''o1'', customer_id := Some ''c1'', customer_state_y := Some ''SP'',
      price := Some 10,
      order_purchase_timestamp := Some (100 * ns_per_day + 5 * ns_per_hour),
      order_delivered_carrier_date := Some (101 * ns_per_day),
      order_delivered_customer_date := Some (103 * ns_per_day + 12 * ns_per_hour),
      order_estimated_delivery_date := Some (104 * ns_per_day),
      product_category_name := Some ''toys'', order_status_x := Some ''delivered'',
      payment_type := Some ''credit_card'', review_score := Some 5\<rparr>"

definition row2 :: order_row where
  "row2 = row1\<lparr>price := Some 5\<rparr>"

definition row3 :: order_row where
  "row3 = blank_row
     \<lparr>order_id := Some ''o2'', customer_id := Some ''c2'', customer_state_y := Some ''RJ'',
      price := Some 20,
      order_purchase_timestamp := Some (102 * ns_per_day),
      order_delivered_carrier_date := Some (103 * ns_per_day),
      order_delivered_customer_date := Some (110 * ns_per_day + ns_per_hour),
      order_estimated_delivery_date := Some (108 * ns_per_day),
      product_category_name := Some ''books'', order_status_x := Some ''delivered'',
      payment_type := Some ''boleto''\<rparr>"

definition row4 :: order_row where
  "row4 = blank_row
     \<lparr>order_id := Some ''o3'', customer_id := Some ''c1'',
      order_purchase_timestamp := Some (105 * ns_per_day),
      product_category_name := Some ''books'', order_status_x := Some ''shipped'',
      payment_type := Some ''credit_card'', review_score := Some 3\<rparr>"

definition sample_orders :: "order_row list" where
  "sample_orders = [row1, row2, row3, row4]"

text \<open>Eighteen rows, each with a product category and a seller city of its own.\<close>

definition eighteen_names :: "string list" where
  "eighteen_names =
     [''c01'', ''c02'', ''c03'', ''c04'', ''c05'', ''c06'', ''c07'', ''c08'', ''c09'',
      ''c10'', ''c11'', ''c12'', ''c13'', ''c14'', ''c15'', ''c16'', ''c17'', ''c18'']"

definition eighteen_rows :: "order_row list" where
  "eighteen_rows =
     map (\<lambda>s. blank_row\<lparr>product_category_name := Some s, seller_city := Some s\<rparr>)
       eighteen_names"

section \<open>Properties\<close>

subsection \<open>Basic facts about the primitives\<close>

lemma ns_per_day_pos: "0 < ns_per_day"
  by (simp add: ns_per_day_def ns_per_hour_def)

lemma boolean_index_map: "boolean_index rs (map P rs) = filter P rs"
  unfolding boolean_index_def by (induction rs) auto

lemma set_uniques_from: "set (uniques_from seen xs) = set seen \<union> set xs"
  by (induction seen xs rule: uniques_from.induct) auto

lemma distinct_uniques_from: "distinct seen \<Longrightarrow> distinct (uniques_from seen xs)"
  by (induction seen xs rule: uniques_from.induct) auto

lemma set_unique: "set (unique xs) = set xs"
  by (simp add: unique_def set_uniques_from)

lemma distinct_unique: "distinct (unique xs)"
  by (simp add: unique_def distinct_uniques_from)

lemma series_sub_map:
  "series_sub (map f rs) (map g rs) = map (\<lambda>r. ts_sub (f r) (g r)) rs"
  unfolding series_sub_def by (induction rs) auto

lemma set_dropna: "set (dropna xs) = {v. Some v \<in> set xs}"
  by (induction xs rule: dropna.induct) auto

lemmas sample_defs = sample_orders_def row1_def row2_def row3_def row4_def blank_row_def

subsection \<open>The state filter (lines 44--51)\<close>

text \<open>
  Claim C4.  Selecting every distinct value of a column keeps the table as it is: the
  result of \<^verbatim>\<open>df[df[col].isin(allowed)]\<close> is the input, row for row and in the same order,
  with no row dropped or merged, whenever \<open>allowed\<close> holds exactly the values of the
  column.  This holds for any column (nulls included, which \<^verbatim>\<open>isin\<close> matches with a
  null in the selection), and in particular for the script's \<^verbatim>\<open>df_filtered\<close> under the
  sidebar's default selection \<open>state_options\<close>.
\<close>

theorem filter_all_values_identity:
  "(set allowed = set (map col tbl) \<longrightarrow> boolean_index tbl (isin (map col tbl) allowed) = tbl)
   \<and> (set state_filter = set (state_options final_dataset) \<longrightarrow>
        rows (df_filtered final_dataset state_filter) = final_dataset)
   \<and> rows (df_filtered final_dataset (state_options final_dataset)) = final_dataset"
proof -
  have gen: "boolean_index t (isin (map c t) a) = t" if "set (map c t) \<subseteq> set a"
    for t :: "'r list" and c :: "'r \<Rightarrow> 'v" and a
  proof -
    have "isin (map c t) a = map (\<lambda>r. c r \<in> set a) t"
      by (simp add: isin_def comp_def)
    moreover have "filter (\<lambda>r. c r \<in> set a) t = t"
      using that by (auto intro: filter_True)
    ultimately show ?thesis by (simp add: boolean_index_map)
  qed
  show ?thesis
    by (auto simp: gen df_filtered_def state_options_def set_unique)
qed

text \<open>The sample table with all its three states (one of them null) selected.\<close>

theorem filter_all_values_identity_witness:
  "state_options sample_orders = [Some ''SP'', Some ''RJ'', None]
   \<and> set [None, Some ''RJ'', Some ''SP''] = set (state_options sample_orders)
   \<and> rows (df_filtered sample_orders [None, Some ''RJ'', Some ''SP'']) = sample_orders
   \<and> length (rows (df_filtered sample_orders (state_options sample_orders))) = 4"
proof -
  have opts: "state_options sample_orders = [Some ''SP'', Some ''RJ'', None]"
    by (simp add: state_options_def unique_def sample_defs)
  have sel: "set [None, Some ''RJ'', Some ''SP''] = set (state_options sample_orders)"
    unfolding opts by auto
  note inst = filter_all_values_identity
      [of "[]" customer_state_y "[]" "[None, Some ''RJ'', Some ''SP'']" sample_orders]
  from inst sel
  have a: "rows (df_filtered sample_orders [None, Some ''RJ'', Some ''SP'']) = sample_orders"
    by blast
  from inst
  have "rows (df_filtered sample_orders (state_options sample_orders)) = sample_orders"
    by blast
  then have b: "length (rows (df_filtered sample_orders (state_options sample_orders))) = 4"
    by (simp add: sample_orders_def)
  from opts sel a b show ?thesis by blast
qed

subsection \<open>Shipping duration (line 272)\<close>

text \<open>
  Claim C1, as the code has it.  The shipping duration of a row is the days component of
  (customer-delivered date minus carrier-delivered date): the carrier date is the one
  subtracted.  It is null when either date is null, and it is not negative when the
  carrier hand-over is not after the delivery to the customer.
\<close>

theorem shipping_time_customer_minus_carrier:
  "shipping_time (shipping_time_step df) =
     Some (map (\<lambda>r. case order_delivered_customer_date r of
                       None \<Rightarrow> None
                     | Some cust \<Rightarrow>
                         (case order_delivered_carrier_date r of
                            None \<Rightarrow> None
                          | Some carr \<Rightarrow> Some ((cust - carr) div ns_per_day)))
             (rows df))
   \<and> (\<forall>i d. i < length (rows df) \<longrightarrow>
          the (shipping_time (shipping_time_step df)) ! i = Some d \<longrightarrow>
          (\<forall>cust carr. order_delivered_customer_date (rows df ! i) = Some cust \<longrightarrow>
             order_delivered_carrier_date (rows df ! i) = Some carr \<longrightarrow>
             carr \<le> cust \<longrightarrow> 0 \<le> d))"
proof -
  have col: "shipping_time (shipping_time_step df) =
     Some (map (\<lambda>r. case order_delivered_customer_date r of
                       None \<Rightarrow> None
                     | Some cust \<Rightarrow>
                         (case order_delivered_carrier_date r of
                            None \<Rightarrow> None
                          | Some carr \<Rightarrow> Some ((cust - carr) div ns_per_day)))
             (rows df))"
    by (simp add: shipping_time_step_def series_sub_map dt_days_def ts_sub_def
        split: option.splits)
  have "0 \<le> (cust - carr) div ns_per_day" if "carr \<le> cust" for cust carr :: int
    using that ns_per_day_pos by (simp add: pos_imp_zdiv_nonneg_iff)
  then show ?thesis
    unfolding col by auto
qed

theorem shipping_time_customer_minus_carrier_witness:
  "shipping_time (shipping_time_step (frame_of sample_orders)) = Some [Some 2, Some 2, Some 7, None]"
  using shipping_time_customer_minus_carrier [of "frame_of sample_orders"]
  by (simp add: frame_of_def sample_defs ns_per_day_def ns_per_hour_def)

text \<open>
  Claim C1 as the specification words it (carrier date minus customer date) fails: for
  a row handed to the carrier on day 101 and delivered at noon of day 103 the script
  stores 2, and the reversed subtraction would give \<open>-3\<close>.
\<close>

theorem shipping_time_not_carrier_minus_customer:
  "shipping_time (shipping_time_step (frame_of [row1])) = Some [Some 2]
   \<and> dt_days (series_sub (map order_delivered_carrier_date [row1])
                         (map order_delivered_customer_date [row1])) = [Some (- 3)]"
  by (simp add: shipping_time_step_def frame_of_def sample_defs ns_per_day_def ns_per_hour_def
      dt_days_def series_sub_def ts_sub_def)

subsection \<open>Delivery category (lines 388--401)\<close>

lemma increasing_bins: "increasing bins"
  by (simp add: bins_def)

lemma bin_label_bins:
  "bin_label bins choices (Some v) =
     Some (if v \<le> 0 then ''On Time''
           else if v \<le> 2 then ''Delayed 1-2 Days''
           else ''Delayed More Than 2 Days'')"
  by (simp add: bin_label_def searchsorted_left_def bins_def choices_def)

lemma bin_label_null: "bin_label bins choices None = None"
  by (simp add: bin_label_def)

lemma pd_cut_bins: "pd_cut col bins choices = Inr (map (bin_label bins choices) col)"
  by (simp add: pd_cut_def increasing_bins) (simp add: bins_def choices_def)

text \<open>
  Claim C3.  \<^verbatim>\<open>pd.cut\<close> with the script's edges and labels maps a delay of at most 0 to
  "On Time", a delay above 0 and at most 2 to "Delayed 1-2 Days", a delay above 2 to
  "Delayed More Than 2 Days", and a null delay to a null category; this is the column
  the script stores as \<^verbatim>\<open>delivery_category\<close>.  The delays 0, 1, 2, 3 and \<open>-5\<close> get the
  labels On Time, Delayed 1-2 Days, Delayed 1-2 Days, Delayed More Than 2 Days and On Time.
\<close>

theorem delivery_category_thresholds:
  "pd_cut delays bins choices =
     Inr (map (\<lambda>d. case d of
                       None \<Rightarrow> None
                     | Some v \<Rightarrow>
                         Some (if v \<le> 0 then ''On Time''
                               else if v \<le> 2 then ''Delayed 1-2 Days''
                               else ''Delayed More Than 2 Days''))
            delays)
   \<and> delivery_category_step (delivery_delay_step df) =
       Inr ((delivery_delay_step df)
             \<lparr>delivery_category :=
                Some (map (\<lambda>d. case d of
                                  None \<Rightarrow> None
                                | Some v \<Rightarrow>
                                    Some (if v \<le> 0 then ''On Time''
                                          else if v \<le> 2 then ''Delayed 1-2 Days''
                                          else ''Delayed More Than 2 Days''))
                       (the (delivery_delay (delivery_delay_step df))))\<rparr>)
   \<and> pd_cut [Some 0, Some 1, Some 2, Some 3, Some (- 5), None] bins choices =
       Inr [Some ''On Time'', Some ''Delayed 1-2 Days'', Some ''Delayed 1-2 Days'',
            Some ''Delayed More Than 2 Days'', Some ''On Time'', None]"
proof -
  have lab: "bin_label bins choices =
     (\<lambda>d. case d of
             None \<Rightarrow> None
           | Some v \<Rightarrow>
               Some (if v \<le> 0 then ''On Time''
                     else if v \<le> 2 then ''Delayed 1-2 Days''
                     else ''Delayed More Than 2 Days''))"
    by (rule ext) (simp add: bin_label_bins bin_label_null split: option.split)
  have cut: "pd_cut col bins choices =
     Inr (map (\<lambda>d. case d of
                       None \<Rightarrow> None
                     | Some v \<Rightarrow>
                         Some (if v \<le> 0 then ''On Time''
                               else if v \<le> 2 then ''Delayed 1-2 Days''
                               else ''Delayed More Than 2 Days''))
            col)" for col
    by (simp only: pd_cut_bins lab)
  have step: "delivery_category_step (delivery_delay_step df) =
       Inr ((delivery_delay_step df)
             \<lparr>delivery_category :=
                Some (map (\<lambda>d. case d of
                                  None \<Rightarrow> None
                                | Some v \<Rightarrow>
                                    Some (if v \<le> 0 then ''On Time''
                                          else if v \<le> 2 then ''Delayed 1-2 Days''
                                          else ''Delayed More Than 2 Days''))
                       (the (delivery_delay (delivery_delay_step df))))\<rparr>)"
    by (simp add: delivery_category_step_def delivery_delay_step_def cut)
  have ex: "pd_cut [Some 0, Some 1, Some 2, Some 3, Some (- 5), None] bins choices =
       Inr [Some ''On Time'', Some ''Delayed 1-2 Days'', Some ''Delayed 1-2 Days'',
            Some ''Delayed More Than 2 Days'', Some ''On Time'', None]"
    by (simp add: cut)
  from cut step ex show ?thesis by blast
qed

text \<open>On the sample table: delays \<open>-1\<close>, \<open>-1\<close>, 2 and null.\<close>

theorem delivery_category_thresholds_witness:
  "delivery_delay (delivery_delay_step (frame_of sample_orders)) =
      Some [Some (- 1), Some (- 1), Some 2, None]
   \<and> (\<exists>df. delivery_category_step (delivery_delay_step (frame_of sample_orders)) = Inr df
         \<and> delivery_category df =
             Some [Some ''On Time'', Some ''On Time'', Some ''Delayed 1-2 Days'', None])"
proof -
  have d: "delivery_delay (delivery_delay_step (frame_of sample_orders)) =
      Some [Some (- 1), Some (- 1), Some 2, None]"
    by (simp add: delivery_delay_step_def frame_of_def sample_defs dt_days_def series_sub_def
        ts_sub_def ns_per_day_def ns_per_hour_def)
  show ?thesis
    using delivery_category_thresholds [of "[]" "frame_of sample_orders"] d
    by simp
qed

subsection \<open>Frequency tables (lines 153--243)\<close>

lemma count_list_dropna: "count_list (dropna col) v = count_list col (Some v)"
  by (induction col rule: dropna.induct) auto

lemma mset_map_nth_perm:
  assumes "mset p = mset [0..<length ys]"
  shows "mset (map (\<lambda>i. ys ! i) p) = mset ys"
proof -
  have "mset (map (\<lambda>i. ys ! i) p) = image_mset (\<lambda>i. ys ! i) (mset p)"
    by simp
  also have "\<dots> = image_mset (\<lambda>i. ys ! i) (mset [0..<length ys])"
    by (simp only: assms)
  also have "\<dots> = mset (map (\<lambda>i. ys ! i) [0..<length ys])"
    by simp
  also have "\<dots> = mset ys"
    by (simp only: map_nth)
  finally show ?thesis .
qed

lemma perm_indices_in_range:
  assumes "mset p = mset [0..<n]" and "j \<in> set p"
  shows "j < n"
proof -
  from assms(1) have "set p = set [0..<n]"
    by (rule mset_eq_setD)
  with assms(2) show ?thesis by simp
qed

lemma nargsort_desc_perm:
  assumes "argsort_ok argsort"
  shows "mset (nargsort_desc argsort cs) = mset [0..<length cs]"
proof -
  from assms have p: "mset (argsort (rev cs)) = mset [0..<length (rev [0..<length cs])]"
    by (simp add: argsort_ok_def)
  have "mset (nargsort_desc argsort cs) = mset (map (\<lambda>j. rev [0..<length cs] ! j) (argsort (rev cs)))"
    by (simp add: nargsort_desc_def)
  also have "\<dots> = mset (rev [0..<length cs])"
    using p by (rule mset_map_nth_perm)
  finally show ?thesis by simp
qed

lemma nargsort_desc_sorted:
  assumes "argsort_ok argsort"
  shows "sorted (rev (map (\<lambda>i. cs ! i) (nargsort_desc argsort cs)))"
proof -
  let ?p = "argsort (rev cs)"
  from assms have p: "mset ?p = mset [0..<length cs]" and s: "sorted (map (\<lambda>i. rev cs ! i) ?p)"
    by (simp_all add: argsort_ok_def)
  have "cs ! (rev [0..<length cs] ! j) = rev cs ! j" if "j \<in> set ?p" for j
  proof -
    from p that have "j < length cs" by (rule perm_indices_in_range)
    then show ?thesis by (simp add: rev_nth)
  qed
  then have eq: "map (\<lambda>j. cs ! (rev [0..<length cs] ! j)) ?p = map (\<lambda>i. rev cs ! i) ?p"
    by (intro map_cong refl)
  show ?thesis
    using s by (simp add: nargsort_desc_def rev_map comp_def eq)
qed

lemma mset_sort_values_desc:
  assumes "argsort_ok argsort"
  shows "mset (sort_values_desc argsort xs) = mset xs"
proof -
  have "mset (nargsort_desc argsort (map snd xs)) = mset [0..<length xs]"
    using nargsort_desc_perm [OF assms, of "map snd xs"] by simp
  then show ?thesis
    unfolding sort_values_desc_def by (rule mset_map_nth_perm)
qed

lemma sorted_sort_values_desc:
  assumes "argsort_ok argsort"
  shows "sorted (rev (map snd (sort_values_desc argsort xs)))"
proof -
  let ?q = "nargsort_desc argsort (map snd xs)"
  have q: "mset ?q = mset [0..<length xs]"
    using nargsort_desc_perm [OF assms, of "map snd xs"] by simp
  have "snd (xs ! i) = map snd xs ! i" if "i \<in> set ?q" for i
  proof -
    from q that have "i < length xs" by (rule perm_indices_in_range)
    then show ?thesis by simp
  qed
  then have "map (\<lambda>i. snd (xs ! i)) ?q = map (\<lambda>i. map snd xs ! i) ?q"
    by (intro map_cong refl)
  then have "map snd (sort_values_desc argsort xs) = map (\<lambda>i. map snd xs ! i) ?q"
    by (simp add: sort_values_desc_def comp_def)
  then show ?thesis
    using nargsort_desc_sorted [OF assms, of "map snd xs"] by simp
qed

lemma sum_counts_unique: "sum_list (map (count_list vs) (unique vs)) = length vs"
proof -
  have "sum_list (map (count_list vs) (unique vs)) = sum (count_list vs) (set (unique vs))"
    by (rule sum_list_distinct_conv_sum_set) (rule distinct_unique)
  also have "\<dots> = length vs"
    by (simp add: set_unique sum_count_set)
  finally show ?thesis .
qed

lemma value_counts_arraylike_props:
  "distinct (map fst (value_counts_arraylike col))"
  "sum_list (map snd (value_counts_arraylike col)) = length (dropna col)"
  "(v, c) \<in> set (value_counts_arraylike col) \<longleftrightarrow> Some v \<in> set col \<and> c = count_list col (Some v)"
proof -
  show "distinct (map fst (value_counts_arraylike col))"
    by (simp add: value_counts_arraylike_def Let_def comp_def distinct_unique)
  show "sum_list (map snd (value_counts_arraylike col)) = length (dropna col)"
    by (simp add: value_counts_arraylike_def Let_def comp_def sum_counts_unique)
  show "(v, c) \<in> set (value_counts_arraylike col) \<longleftrightarrow> Some v \<in> set col \<and> c = count_list col (Some v)"
    by (auto simp: value_counts_arraylike_def Let_def set_unique set_dropna count_list_dropna)
qed

lemma sum_list_take_le: "sum_list (take n (xs :: nat list)) \<le> sum_list xs"
proof -
  have "sum_list xs = sum_list (take n xs) + sum_list (drop n xs)"
    by (metis append_take_drop_id sum_list_append)
  then show ?thesis by simp
qed

lemma sorted_desc_take_drop:
  assumes "sorted (rev xs)" and "a \<in> set (take n xs)" and "b \<in> set (drop n xs)"
  shows "(b :: nat) \<le> a"
proof -
  have "rev xs = rev (drop n xs) @ rev (take n xs)"
    by (metis append_take_drop_id rev_append)
  with assms(1) have "\<forall>x\<in>set (rev (drop n xs)). \<forall>y\<in>set (rev (take n xs)). x \<le> y"
    by (simp add: sorted_append)
  with assms(2,3) show ?thesis by simp
qed

lemma argsort_stable_ok: "argsort_ok argsort_stable"
  by (simp add: argsort_ok_def argsort_stable_def sorted_sort_key del: upt.simps)

lemma length_value_counts:
  assumes "argsort_ok argsort"
  shows "length (value_counts argsort col) = card {v. Some v \<in> set col}"
proof -
  have "mset (value_counts argsort col) = mset (value_counts_arraylike col)"
    unfolding value_counts_def by (rule mset_sort_values_desc [OF assms])
  then have "length (value_counts argsort col) = length (value_counts_arraylike col)"
    by (rule mset_eq_length)
  also have "\<dots> = length (unique (dropna col))"
    by (simp add: value_counts_arraylike_def Let_def)
  also have "\<dots> = card (set (unique (dropna col)))"
    by (simp add: distinct_card distinct_unique)
  also have "\<dots> = card {v. Some v \<in> set col}"
    by (simp add: set_unique set_dropna)
  finally show ?thesis .
qed

lemma column_values: "{v. Some v \<in> set (map f rs)} = {v. \<exists>r \<in> set rs. f r = Some v}"
  by (force simp: image_iff)

lemma sorted_desc_head:
  assumes "sorted (rev (map snd xs))"
  shows "sorted (rev (map snd (head n xs)))"
proof -
  have "rev (map snd xs) = rev (drop n (map snd xs)) @ rev (take n (map snd xs))"
    by (metis append_take_drop_id rev_append)
  with assms have "sorted (rev (take n (map snd xs)))"
    by (simp add: sorted_append)
  then show ?thesis by (simp add: head_def take_map)
qed

text \<open>
  Claim C6, as the code has it.  Whatever sorting permutation numpy returns, the first
  \<open>n\<close> rows of \<^verbatim>\<open>value_counts()\<close> hold only non-null values of the column, each once and
  with its number of occurrences; they are \<open>n\<close> rows, or all the distinct values when
  there are fewer; their counts descend; the counts add up to at most the number of rows
  with a non-null value; and no value left out occurs more often than a value kept.
  This is so for \<^verbatim>\<open>top10_product_categories\<close> (line 153) and \<^verbatim>\<open>top10_seller_cities\<close>
  (line 213) with \<open>n\<close> = 10.  The order among values of equal count is the sort's
  choice: nothing in the script fixes it.
\<close>

theorem top_n_frequency:
  assumes "argsort_ok argsort"
  shows "(\<forall>(v, c) \<in> set (head n (value_counts argsort col)).
            Some v \<in> set col \<and> c = count_list col (Some v) \<and> 0 < c)
         \<and> distinct (map fst (head n (value_counts argsort col)))
         \<and> length (head n (value_counts argsort col)) \<le> n
         \<and> length (head n (value_counts argsort col)) = min n (card {v. Some v \<in> set col})
         \<and> sorted (rev (map snd (head n (value_counts argsort col))))
         \<and> sum_list (map snd (head n (value_counts argsort col))) \<le> length (dropna col)
         \<and> (\<forall>v. Some v \<in> set col \<and> v \<notin> fst ` set (head n (value_counts argsort col)) \<longrightarrow>
               (\<forall>c \<in> snd ` set (head n (value_counts argsort col)). count_list col (Some v) \<le> c))
         \<and> top10_product_categories argsort df =
               head 10 (value_counts argsort (map product_category_name (rows df)))
         \<and> length (top10_product_categories argsort df) =
               min 10 (card {v. \<exists>r \<in> set (rows df). product_category_name r = Some v})
         \<and> sorted (rev (map snd (top10_product_categories argsort df)))
         \<and> sum_list (map snd (top10_product_categories argsort df))
               \<le> length (dropna (map product_category_name (rows df)))
         \<and> top10_seller_cities argsort df =
               head 10 (value_counts argsort (map seller_city (rows df)))
         \<and> length (top10_seller_cities argsort df) =
               min 10 (card {v. \<exists>r \<in> set (rows df). seller_city r = Some v})
         \<and> sorted (rev (map snd (top10_seller_cities argsort df)))
         \<and> sum_list (map snd (top10_seller_cities argsort df))
               \<le> length (dropna (map seller_city (rows df)))"
proof -
  have sorted_s: "sorted (rev (map snd (value_counts argsort k)))" for k :: "'k option list"
    unfolding value_counts_def by (rule sorted_sort_values_desc [OF assms])
  have len: "length (head m (value_counts argsort k)) = min m (card {v. Some v \<in> set k})"
    for m and k :: "'k option list"
    by (simp add: head_def length_value_counts [OF assms] min.commute)
  have sum_s: "sum_list (map snd (head m (value_counts argsort k))) \<le> length (dropna k)"
    for m and k :: "'k option list"
  proof -
    have "mset (value_counts argsort k) = mset (value_counts_arraylike k)"
      unfolding value_counts_def by (rule mset_sort_values_desc [OF assms])
    then have "mset (map snd (value_counts argsort k)) = mset (map snd (value_counts_arraylike k))"
      by (metis mset_map)
    then have "sum_list (map snd (value_counts argsort k)) = sum_list (map snd (value_counts_arraylike k))"
      by (metis sum_mset_sum_list)
    then have "sum_list (map snd (value_counts argsort k)) = length (dropna k)"
      by (simp add: value_counts_arraylike_props(2))
    then show ?thesis
      using sum_list_take_le [of m "map snd (value_counts argsort k)"]
      by (simp add: head_def take_map)
  qed
  let ?u = "value_counts_arraylike col"
  let ?s = "value_counts argsort col"
  have ms: "mset ?s = mset ?u"
    unfolding value_counts_def by (rule mset_sort_values_desc [OF assms])
  then have set_s: "set ?s = set ?u"
    by (rule mset_eq_setD)
  have dist_s: "distinct (map fst ?s)"
  proof -
    have "mset (map fst ?s) = mset (map fst ?u)"
      using ms by (metis mset_map)
    then show ?thesis
      using value_counts_arraylike_props(1) [of col] by (metis mset_eq_imp_distinct_iff)
  qed
  have mem: "(v, c) \<in> set ?s \<longleftrightarrow> Some v \<in> set col \<and> c = count_list col (Some v)" for v c
    unfolding set_s by (rule value_counts_arraylike_props(3))
  have a: "\<forall>(v, c) \<in> set (head n ?s). Some v \<in> set col \<and> c = count_list col (Some v) \<and> 0 < c"
  proof -
    have "Some v \<in> set col \<and> c = count_list col (Some v) \<and> 0 < c" if "(v, c) \<in> set (take n ?s)" for v c
    proof -
      from that have "(v, c) \<in> set ?s" by (rule in_set_takeD)
      with mem have "Some v \<in> set col" and "c = count_list col (Some v)" by auto
      then show ?thesis using count_list_0_iff [of col "Some v"] by simp
    qed
    then show ?thesis by (auto simp: head_def)
  qed
  have b: "distinct (map fst (head n ?s))"
    using dist_s by (simp add: head_def take_map [symmetric] distinct_take)
  have c: "length (head n ?s) \<le> n"
    by (simp add: head_def)
  have f: "\<forall>v. Some v \<in> set col \<and> v \<notin> fst ` set (head n ?s) \<longrightarrow>
               (\<forall>c \<in> snd ` set (head n ?s). count_list col (Some v) \<le> c)"
  proof (intro allI impI ballI)
    fix v c
    assume v: "Some v \<in> set col \<and> v \<notin> fst ` set (head n ?s)"
      and c: "c \<in> snd ` set (head n ?s)"
    let ?k = "count_list col (Some v)"
    from v mem have "(v, ?k) \<in> set ?s" by simp
    then have "(v, ?k) \<in> set (take n ?s) \<union> set (drop n ?s)"
      by (metis append_take_drop_id set_append)
    moreover from v have "(v, ?k) \<notin> set (take n ?s)"
      by (force simp: head_def)
    ultimately have "(v, ?k) \<in> set (drop n ?s)" by simp
    then have kd: "?k \<in> set (drop n (map snd ?s))"
      by (force simp: drop_map)
    from c have ct: "c \<in> set (take n (map snd ?s))"
      by (simp add: head_def take_map)
    show "?k \<le> c"
      by (rule sorted_desc_take_drop [OF sorted_s ct kd])
  qed
  have p: "top10_product_categories argsort df =
               head 10 (value_counts argsort (map product_category_name (rows df)))"
    by (simp add: top10_product_categories_def)
  have q: "top10_seller_cities argsort df =
               head 10 (value_counts argsort (map seller_city (rows df)))"
    by (simp add: top10_seller_cities_def)
  have p1: "length (top10_product_categories argsort df) =
               min 10 (card {v. \<exists>r \<in> set (rows df). product_category_name r = Some v})"
    unfolding p len column_values ..
  have q1: "length (top10_seller_cities argsort df) =
               min 10 (card {v. \<exists>r \<in> set (rows df). seller_city r = Some v})"
    unfolding q len column_values ..
  have p2: "sorted (rev (map snd (top10_product_categories argsort df)))"
    unfolding p by (rule sorted_desc_head [OF sorted_s])
  have q2: "sorted (rev (map snd (top10_seller_cities argsort df)))"
    unfolding q by (rule sorted_desc_head [OF sorted_s])
  have p3: "sum_list (map snd (top10_product_categories argsort df))
               \<le> length (dropna (map product_category_name (rows df)))"
    unfolding p by (rule sum_s)
  have q3: "sum_list (map snd (top10_seller_cities argsort df))
               \<le> length (dropna (map seller_city (rows df)))"
    unfolding q by (rule sum_s)
  have d: "sorted (rev (map snd (head n ?s)))"
    by (rule sorted_desc_head [OF sorted_s])
  from a b c len [of n col] d sum_s [of n col] f p p1 p2 p3 q q1 q2 q3
  show ?thesis by blast
qed

text \<open>The product categories of the sample table, with a stable sort.\<close>

theorem top_n_frequency_witness:
  "argsort_ok argsort_stable
   \<and> top10_product_categories argsort_stable (frame_of sample_orders) = [(''toys'', 2), (''books'', 2)]
   \<and> length (top10_product_categories argsort_stable (frame_of sample_orders))
       = min 10 (card {v. \<exists>r \<in> set (rows (frame_of sample_orders)). product_category_name r = Some v})
   \<and> sum_list (map snd (top10_product_categories argsort_stable (frame_of sample_orders)))
        \<le> length (dropna (map product_category_name (rows (frame_of sample_orders))))
   \<and> length (head 1 (value_counts argsort_stable (map product_category_name sample_orders))) \<le> 1"
proof -
  have ev: "top10_product_categories argsort_stable (frame_of sample_orders) = [(''toys'', 2), (''books'', 2)]"
    by code_simp
  from top_n_frequency [OF argsort_stable_ok, of 1 "map product_category_name sample_orders"
      "frame_of sample_orders"]
  have "length (top10_product_categories argsort_stable (frame_of sample_orders))
       = min 10 (card {v. \<exists>r \<in> set (rows (frame_of sample_orders)). product_category_name r = Some v})
   \<and> sum_list (map snd (top10_product_categories argsort_stable (frame_of sample_orders)))
        \<le> length (dropna (map product_category_name (rows (frame_of sample_orders))))
   \<and> length (head 1 (value_counts argsort_stable (map product_category_name sample_orders))) \<le> 1"
    by blast
  with ev argsort_stable_ok show ?thesis by blast
qed

text \<open>
  Claim C6 as the specification words it asks for ties in order of first appearance.
  On eighteen rows with eighteen product categories (and seller cities), first met in
  the order \<open>c01\<close>, ..., \<open>c18\<close> and each occurring once, numpy's quicksort partitions the
  eighteen equal counts once and swaps entries across the pivot, and line 153 (and line
  213) returns \<open>c01\<close>, \<open>c02\<close>, \<open>c17\<close>, \<open>c16\<close>, ..., \<open>c10\<close>: not the first ten met.
\<close>

theorem top10_ties_not_first_encountered:
  "map fst (value_counts_arraylike (map product_category_name eighteen_rows)) = eighteen_names
   \<and> map snd (value_counts_arraylike (map product_category_name eighteen_rows)) = replicate 18 1
   \<and> aquicksort (replicate 18 1) = Some [0, 15, 14, 13, 12, 11, 10, 9, 8, 7, 6, 5, 4, 3, 2, 1, 16, 17]
   \<and> top10_product_categories npy_argsort (frame_of eighteen_rows) =
       [(''c01'', 1), (''c02'', 1), (''c17'', 1), (''c16'', 1), (''c15'', 1),
        (''c14'', 1), (''c13'', 1), (''c12'', 1), (''c11'', 1), (''c10'', 1)]
   \<and> top10_seller_cities npy_argsort (frame_of eighteen_rows) =
       [(''c01'', 1), (''c02'', 1), (''c17'', 1), (''c16'', 1), (''c15'', 1),
        (''c14'', 1), (''c13'', 1), (''c12'', 1), (''c11'', 1), (''c10'', 1)]"
  by code_simp

text \<open>
  When numpy's sort is stable, the values of equal count do come in order of first
  appearance: the rows of any one count are those of the unsorted table, in its order.
\<close>

lemma value_counts_stable_ties:
  "filter (\<lambda>p. snd p = c) (value_counts argsort_stable col)
     = filter (\<lambda>p. snd p = c) (value_counts_arraylike col)"
proof -
  let ?xs = "value_counts_arraylike col"
  let ?n = "length ?xs"
  let ?key = "\<lambda>i. rev (map snd ?xs) ! i"
  let ?S = "sort_key ?key [0..<?n]"
  have S: "argsort_stable (rev (map snd ?xs)) = ?S"
    by (simp add: argsort_stable_def)
  have inS: "i < ?n" if "i \<in> set ?S" for i
    using that by simp
  have eq: "map (\<lambda>j. ?xs ! (rev [0..<?n] ! j)) ?S = map (\<lambda>j. rev ?xs ! j) ?S"
    by (intro map_cong refl) (simp add: rev_nth)
  have n: "length (map snd ?xs) = ?n"
    by simp
  have "value_counts argsort_stable col
      = map (\<lambda>i. ?xs ! i) (rev (map (\<lambda>j. rev [0..<?n] ! j) ?S))"
    by (simp only: value_counts_def sort_values_desc_def nargsort_desc_def n S)
  also have "\<dots> = rev (map (\<lambda>j. ?xs ! (rev [0..<?n] ! j)) ?S)"
    by (simp only: rev_map map_map comp_def)
  finally have v: "value_counts argsort_stable col = rev (map (\<lambda>j. rev ?xs ! j) ?S)"
    by (simp only: eq)
  have "filter (\<lambda>p. snd p = c) (map (\<lambda>j. rev ?xs ! j) ?S)
      = map (\<lambda>j. rev ?xs ! j) (filter (\<lambda>j. snd (rev ?xs ! j) = c) ?S)"
    by (simp add: filter_map comp_def)
  also have "filter (\<lambda>j. snd (rev ?xs ! j) = c) ?S = filter (\<lambda>j. ?key j = c) ?S"
    by (intro filter_cong refl) (simp add: rev_nth)
  also have "\<dots> = filter (\<lambda>j. ?key j = c) [0..<?n]"
    by (rule sort_key_stable)
  also have "\<dots> = filter (\<lambda>j. snd (rev ?xs ! j) = c) [0..<?n]"
    by (intro filter_cong refl) (simp add: rev_nth)
  also have "map (\<lambda>j. rev ?xs ! j) \<dots> = filter (\<lambda>p. snd p = c) (map (\<lambda>j. rev ?xs ! j) [0..<?n])"
    by (simp add: filter_map comp_def)
  also have "map (\<lambda>j. rev ?xs ! j) [0..<?n] = rev ?xs"
    using map_nth [of "rev ?xs"] by simp
  finally have "filter (\<lambda>p. snd p = c) (map (\<lambda>j. rev ?xs ! j) ?S) = filter (\<lambda>p. snd p = c) (rev ?xs)" .
  then have "rev (filter (\<lambda>p. snd p = c) (map (\<lambda>j. rev ?xs ! j) ?S)) = rev (filter (\<lambda>p. snd p = c) (rev ?xs))"
    by (simp only:)
  then have "filter (\<lambda>p. snd p = c) (rev (map (\<lambda>j. rev ?xs ! j) ?S)) = filter (\<lambda>p. snd p = c) (rev (rev ?xs))"
    by (simp only: rev_filter)
  then show ?thesis
    by (simp only: v rev_rev_ident)
qed

subsection \<open>The nullable integer columns (lines 26--29)\<close>

text \<open>
  Claim C2 says that the conversion of the four nullable integer columns never raises
  and turns a non-numeric cell into a null.  The date columns are converted that way
  (\<^verbatim>\<open>errors='coerce'\<close>, line 23), but \<^verbatim>\<open>astype('Int64')\<close> is a plain cast: on a column
  that holds the text \<^verbatim>\<open>abc\<close> it raises \<^verbatim>\<open>ValueError\<close>, and so does \<^verbatim>\<open>load_data\<close>; on a
  column that holds 4.5 it raises \<^verbatim>\<open>TypeError\<close>.  Missing cells do become nulls, and stay
  distinct from zero.
\<close>

theorem astype_Int64_raises_on_malformed_cell:
  "astype_Int64 (ObjectCol [Some ''5'', Some ''abc'']) = Inl ValueError
   \<and> load_data_numeric (IntCol [1, 2]) (IntCol [1, 1]) (IntCol [1, 3])
         (ObjectCol [Some ''5'', Some ''abc'']) = Inl ValueError
   \<and> astype_Int64 (FloatCol [Some 5, Some (9 / 2)]) = Inl TypeError
   \<and> astype_Int64 (FloatCol [Some 0, None, Some 4]) = Inr [Some 0, None, Some 4]"
  by code_simp

text \<open>
  What holds of the conversion when it does not raise: a null stays a null and nothing
  else becomes one (so a zero stays a zero), a float is the integer it equals, and a
  text is the integer it spells.
\<close>

lemma sequence_Inr:
  "sequence rs = Inr vs \<Longrightarrow> list_all2 (\<lambda>r v. r = Inr v) rs vs"
  by (induction rs arbitrary: vs rule: sequence.induct) (auto split: sum.splits)

lemma object_cell_Int64_Inr:
  assumes "object_cell_Int64 x = Inr y"
  shows "(x = None \<longleftrightarrow> y = None) \<and> (\<forall>s. x = Some s \<longrightarrow> y = py_int s)"
proof (cases x)
  case None
  with assms show ?thesis by (simp add: object_cell_Int64_def)
next
  case (Some s)
  show ?thesis
  proof (cases "py_int s")
    case None
    with Some assms show ?thesis by (simp add: object_cell_Int64_def)
  next
    case (Some n)
    then have p: "py_int s = Some n" .
    with \<open>x = Some s\<close> assms have "y = Some n"
      by (simp add: object_cell_Int64_def split: if_splits)
    with p \<open>x = Some s\<close> show ?thesis by simp
  qed
qed

lemma astype_Int64_keeps_nulls:
  assumes "astype_Int64 col = Inr ys"
  shows "(case col of
            IntCol xs \<Rightarrow> ys = map Some xs
          | FloatCol xs \<Rightarrow> list_all2 (\<lambda>x y. (x = None \<longleftrightarrow> y = None)
                                \<and> (\<forall>q. x = Some q \<longrightarrow> (\<exists>n. y = Some n \<and> of_int n = q))) xs ys
          | ObjectCol xs \<Rightarrow> list_all2 (\<lambda>x y. (x = None \<longleftrightarrow> y = None)
                                \<and> (\<forall>s. x = Some s \<longrightarrow> y = py_int s)) xs ys)"
proof (cases col)
  case (IntCol xs)
  with assms show ?thesis by simp
next
  case (FloatCol xs)
  with assms have "list_all2 (\<lambda>r v. r = Inr v) (map float_cell_Int64 xs) ys"
    by (simp add: sequence_Inr)
  then have "list_all2 (\<lambda>x y. float_cell_Int64 x = Inr y) xs ys"
    by (simp add: list_all2_map1)
  then have "list_all2 (\<lambda>x y. (x = None \<longleftrightarrow> y = None)
                                \<and> (\<forall>q. x = Some q \<longrightarrow> (\<exists>n. y = Some n \<and> of_int n = q))) xs ys"
    by (rule list_all2_mono) (auto simp: float_cell_Int64_def split: option.splits if_splits)
  with FloatCol show ?thesis by simp
next
  case (ObjectCol xs)
  with assms have "list_all2 (\<lambda>r v. r = Inr v) (map object_cell_Int64 xs) ys"
    by (simp add: sequence_Inr)
  then have "list_all2 (\<lambda>x y. object_cell_Int64 x = Inr y) xs ys"
    by (simp add: list_all2_map1)
  then have "list_all2 (\<lambda>x y. (x = None \<longleftrightarrow> y = None)
                                \<and> (\<forall>s. x = Some s \<longrightarrow> y = py_int s)) xs ys"
    by (rule list_all2_mono) (rule object_cell_Int64_Inr)
  with ObjectCol show ?thesis by simp
qed

subsection \<open>RFM (lines 291--306)\<close>

lemma set_group_keys: "set (group_keys ks) = set (dropna ks)"
  by (simp add: group_keys_def set_unique)

lemma distinct_group_keys: "distinct (group_keys ks)"
  by (simp add: group_keys_def distinct_unique)

lemma sorted_group_keys: "sorted (group_keys ks)"
  by (simp add: group_keys_def)

lemma filter_key_single:
  "distinct ks \<Longrightarrow> k \<in> set ks \<Longrightarrow>
     filter (\<lambda>(k', b). k' = k) (map (\<lambda>k. (k, g k)) ks) = [(k, g k)]"
  by (induction ks) (auto simp: filter_empty_conv)

lemma merge_on_same_keys:
  assumes "distinct ks"
  shows "merge_on (map (\<lambda>k. (k, f k)) ks) (map (\<lambda>k. (k, g k)) ks) = map (\<lambda>k. (k, f k, g k)) ks"
proof -
  have "map (\<lambda>(k', b). (k, f k, b)) (filter (\<lambda>(k', b). k' = k) (map (\<lambda>k. (k, g k)) ks)) = [(k, f k, g k)]"
    if "k \<in> set ks" for k
    using filter_key_single [OF assms that, of g] by simp
  then have eq: "map (\<lambda>k. map (\<lambda>(k', b). (k, f k, b)) (filter (\<lambda>(k', b). k' = k) (map (\<lambda>k. (k, g k)) ks))) ks
      = map (\<lambda>k. [(k, f k, g k)]) ks"
    by (intro map_cong refl)
  have "merge_on (map (\<lambda>k. (k, f k)) ks) (map (\<lambda>k. (k, g k)) ks)
      = concat (map (\<lambda>k. map (\<lambda>(k', b). (k, f k, b)) (filter (\<lambda>(k', b). k' = k) (map (\<lambda>k. (k, g k)) ks))) ks)"
    by (simp add: merge_on_def comp_def)
  also have "\<dots> = concat (map (\<lambda>k. [(k, f k, g k)]) ks)"
    by (simp only: eq)
  also have "\<dots> = map (\<lambda>k. (k, f k, g k)) ks"
    by (simp add: concat_map_singleton)
  finally show ?thesis .
qed

lemma nunique_card: "nunique xs = card {v. Some v \<in> set xs}"
proof -
  have "nunique xs = card (set (unique (dropna xs)))"
    by (simp add: nunique_def distinct_card distinct_unique)
  then show ?thesis by (simp add: set_unique set_dropna)
qed

lemma series_max_None: "series_max xs = None \<longleftrightarrow> (\<forall>t. Some t \<notin> set xs)"
proof -
  have "set (dropna xs) = {} \<longleftrightarrow> (\<forall>t. Some t \<notin> set xs)"
    by (auto simp: set_dropna)
  then have "dropna xs = [] \<longleftrightarrow> (\<forall>t. Some t \<notin> set xs)"
    by simp
  then show ?thesis by (cases "dropna xs") (simp_all add: series_max_def)
qed

lemma series_max_Some:
  assumes "series_max xs = Some m"
  shows "Some m \<in> set xs \<and> (\<forall>t. Some t \<in> set xs \<longrightarrow> t \<le> m)"
proof -
  from assms obtain v vs where d: "dropna xs = v # vs" and m: "m = fold max vs v"
    by (auto simp: series_max_def split: list.splits)
  have "m = Max (set (dropna xs))"
    unfolding d m by (rule Max.set_eq_fold [symmetric])
  moreover have "set (dropna xs) \<noteq> {}" by (simp add: d)
  ultimately have "m \<in> set (dropna xs)" and "\<forall>t \<in> set (dropna xs). t \<le> m"
    by (auto intro: Max_in)
  then show ?thesis by (simp add: set_dropna)
qed

lemma recency_eq:
  "recency now df =
     map (\<lambda>c. (c, series_max (map order_purchase_timestamp (filter (\<lambda>r. customer_id r = Some c) (rows df))),
                map_option (\<lambda>d. d div ns_per_day)
                  (ts_sub (Some now) (series_max (map order_purchase_timestamp (filter (\<lambda>r. customer_id r = Some c) (rows df)))))))
       (group_keys (map customer_id (rows df)))"
  by (simp add: recency_def groupby_agg_def Let_def dt_days_def comp_def zip_map_map
      zip_same_conv_map)

lemma rfm_eq:
  "rfm now df =
     map (\<lambda>c. (c, ((series_max (map order_purchase_timestamp (filter (\<lambda>r. customer_id r = Some c) (rows df))),
                      map_option (\<lambda>d. d div ns_per_day)
                        (ts_sub (Some now) (series_max (map order_purchase_timestamp (filter (\<lambda>r. customer_id r = Some c) (rows df)))))),
                     nunique (map order_id (filter (\<lambda>r. customer_id r = Some c) (rows df)))),
                series_sum (map price (filter (\<lambda>r. customer_id r = Some c) (rows df)))))
       (group_keys (map customer_id (rows df)))"
proof -
  let ?ks = "group_keys (map customer_id (rows df))"
  let ?R = "\<lambda>c. (series_max (map order_purchase_timestamp (filter (\<lambda>r. customer_id r = Some c) (rows df))),
                map_option (\<lambda>d. d div ns_per_day)
                  (ts_sub (Some now) (series_max (map order_purchase_timestamp (filter (\<lambda>r. customer_id r = Some c) (rows df))))))"
  let ?F = "\<lambda>c. nunique (map order_id (filter (\<lambda>r. customer_id r = Some c) (rows df)))"
  let ?M = "\<lambda>c. series_sum (map price (filter (\<lambda>r. customer_id r = Some c) (rows df)))"
  have r: "recency now df = map (\<lambda>c. (c, ?R c)) ?ks"
    by (simp add: recency_eq)
  have f: "frequency df = map (\<lambda>c. (c, ?F c)) ?ks"
    by (simp add: frequency_def groupby_agg_def)
  have m: "monetary df = map (\<lambda>c. (c, ?M c)) ?ks"
    by (simp add: monetary_def groupby_agg_def)
  have "merge_on (recency now df) (frequency df) = map (\<lambda>c. (c, ?R c, ?F c)) ?ks"
    unfolding r f by (rule merge_on_same_keys [OF distinct_group_keys])
  then have "rfm now df = merge_on (map (\<lambda>c. (c, (?R c, ?F c))) ?ks) (map (\<lambda>c. (c, ?M c)) ?ks)"
    by (simp add: rfm_def m)
  also have "\<dots> = map (\<lambda>c. (c, (?R c, ?F c), ?M c)) ?ks"
    by (rule merge_on_same_keys [OF distinct_group_keys])
  finally show ?thesis by simp
qed


lemma recency_nonneg:
  assumes "series_max ts = Some m" and "\<forall>t. Some t \<in> set ts \<longrightarrow> t \<le> now"
  shows "0 \<le> (now - m) div ns_per_day"
proof -
  from assms(1) have "Some m \<in> set ts" by (simp add: series_max_Some)
  with assms(2) have "0 \<le> now - m" by simp
  then show ?thesis
    using ns_per_day_pos by (simp add: pos_imp_zdiv_nonneg_iff)
qed

text \<open>
  Claim C8.  For any evaluation instant \<open>now\<close>, the RFM table has one record per
  customer id present in the filtered rows.  Its Frequency is the number of distinct
  order ids among that customer's rows.  Its Recency is the whole days from the
  customer's most recent purchase to \<open>now\<close> (null when the customer has no purchase
  timestamp), and it is not negative when all of the customer's purchase timestamps are
  at or before \<open>now\<close>.
\<close>

theorem rfm_recency_frequency:
  "map fst (rfm now df) = group_keys (map customer_id (rows df))
   \<and> fst ` set (rfm now df) = {c. \<exists>row \<in> set (rows df). customer_id row = Some c}
   \<and> distinct (map fst (rfm now df))
   \<and> (\<forall>(c, ((m, r), f), mon) \<in> set (rfm now df).
         f = card {oid. \<exists>row \<in> set (rows df). customer_id row = Some c \<and> order_id row = Some oid}
         \<and> r = map_option (\<lambda>t. (now - t) div ns_per_day) m
         \<and> (\<forall>t. m = Some t \<longrightarrow>
               (\<exists>row \<in> set (rows df). customer_id row = Some c \<and> order_purchase_timestamp row = Some t)
               \<and> (\<forall>row \<in> set (rows df). \<forall>t'. customer_id row = Some c \<and>
                      order_purchase_timestamp row = Some t' \<longrightarrow> t' \<le> t))
         \<and> ((\<forall>row \<in> set (rows df). \<forall>t. customer_id row = Some c \<and>
                 order_purchase_timestamp row = Some t \<longrightarrow> t \<le> now)
              \<longrightarrow> (\<forall>d. r = Some d \<longrightarrow> 0 \<le> d)))"
proof -
  let ?ks = "group_keys (map customer_id (rows df))"
  let ?g = "\<lambda>c. filter (\<lambda>r. customer_id r = Some c) (rows df)"
  let ?m = "\<lambda>c. series_max (map order_purchase_timestamp (?g c))"
  have keys: "map fst (rfm now df) = ?ks"
    by (simp add: rfm_eq comp_def)
  have a: "fst ` set (rfm now df) = {c. \<exists>row \<in> set (rows df). customer_id row = Some c}"
  proof -
    have "fst ` set (rfm now df) = set (map fst (rfm now df))" by simp
    also have "\<dots> = set (dropna (map customer_id (rows df)))"
      by (simp only: keys set_group_keys)
    also have "\<dots> = {c. \<exists>row \<in> set (rows df). customer_id row = Some c}"
      by (force simp: set_dropna image_iff)
    finally show ?thesis .
  qed
  have b: "distinct (map fst (rfm now df))"
    by (simp only: keys distinct_group_keys)
  have freq: "nunique (map order_id (?g c)) =
      card {oid. \<exists>row \<in> set (rows df). customer_id row = Some c \<and> order_id row = Some oid}" for c
  proof -
    have "{v. Some v \<in> set (map order_id (?g c))} =
        {oid. \<exists>row \<in> set (rows df). customer_id row = Some c \<and> order_id row = Some oid}"
      by (auto simp: image_iff)
    then show ?thesis by (simp only: nunique_card)
  qed
  have rec: "map_option (\<lambda>d. d div ns_per_day) (ts_sub (Some now) (?m c)) =
      map_option (\<lambda>t. (now - t) div ns_per_day) (?m c)" for c
    by (simp add: ts_sub_def split: option.split)
  have mx: "(\<exists>row \<in> set (rows df). customer_id row = Some c \<and> order_purchase_timestamp row = Some t)
        \<and> (\<forall>row \<in> set (rows df). \<forall>t'. customer_id row = Some c \<and>
               order_purchase_timestamp row = Some t' \<longrightarrow> t' \<le> t)"
    if "?m c = Some t" for c t
  proof -
    from series_max_Some [OF that]
    have 1: "Some t \<in> set (map order_purchase_timestamp (?g c))"
      and 2: "\<forall>t'. Some t' \<in> set (map order_purchase_timestamp (?g c)) \<longrightarrow> t' \<le> t"
      by blast+
    from 1 have "\<exists>row \<in> set (rows df). customer_id row = Some c \<and> order_purchase_timestamp row = Some t"
      by (auto simp: image_iff)
    moreover have "t' \<le> t"
      if "row \<in> set (rows df)" "customer_id row = Some c" "order_purchase_timestamp row = Some t'"
      for row t'
    proof -
      from that have "Some t' \<in> set (map order_purchase_timestamp (?g c))"
        by (force simp: image_iff)
      with 2 show ?thesis by blast
    qed
    ultimately show ?thesis by blast
  qed
  have nn: "0 \<le> d"
    if h: "\<forall>row \<in> set (rows df). \<forall>t. customer_id row = Some c \<and>
                 order_purchase_timestamp row = Some t \<longrightarrow> t \<le> now"
      and d: "map_option (\<lambda>t. (now - t) div ns_per_day) (?m c) = Some d" for c d
  proof -
    from d obtain t where t: "?m c = Some t" and dd: "d = (now - t) div ns_per_day"
      by auto
    have "\<forall>t. Some t \<in> set (map order_purchase_timestamp (?g c)) \<longrightarrow> t \<le> now"
      using h by (auto simp: image_iff)
    with t have "0 \<le> (now - t) div ns_per_day" by (rule recency_nonneg)
    with dd show ?thesis by simp
  qed
  have c: "\<forall>(c, ((m, r), f), mon) \<in> set (rfm now df).
         f = card {oid. \<exists>row \<in> set (rows df). customer_id row = Some c \<and> order_id row = Some oid}
         \<and> r = map_option (\<lambda>t. (now - t) div ns_per_day) m
         \<and> (\<forall>t. m = Some t \<longrightarrow>
               (\<exists>row \<in> set (rows df). customer_id row = Some c \<and> order_purchase_timestamp row = Some t)
               \<and> (\<forall>row \<in> set (rows df). \<forall>t'. customer_id row = Some c \<and>
                      order_purchase_timestamp row = Some t' \<longrightarrow> t' \<le> t))
         \<and> ((\<forall>row \<in> set (rows df). \<forall>t. customer_id row = Some c \<and>
                 order_purchase_timestamp row = Some t \<longrightarrow> t \<le> now)
              \<longrightarrow> (\<forall>d. r = Some d \<longrightarrow> 0 \<le> d))"
  proof (clarify, intro conjI allI impI)
    fix c m r f mon
    assume "(c, ((m, r), f), mon) \<in> set (rfm now df)"
    then have m: "m = ?m c" and r: "r = map_option (\<lambda>t. (now - t) div ns_per_day) (?m c)"
      and f: "f = nunique (map order_id (?g c))"
      by (auto simp: rfm_eq rec)
    show "f = card {oid. \<exists>row \<in> set (rows df). customer_id row = Some c \<and> order_id row = Some oid}"
      by (simp only: f freq)
    show "r = map_option (\<lambda>t. (now - t) div ns_per_day) m"
      by (simp only: r m)
    { fix t assume "m = Some t"
      with m have "?m c = Some t" by simp
      from mx [OF this]
      show "\<exists>row \<in> set (rows df). customer_id row = Some c \<and> order_purchase_timestamp row = Some t"
        and "\<forall>row \<in> set (rows df). \<forall>t'. customer_id row = Some c \<and>
                      order_purchase_timestamp row = Some t' \<longrightarrow> t' \<le> t"
        by blast+ }
    { fix d
      assume h: "\<forall>row \<in> set (rows df). \<forall>t. customer_id row = Some c \<and>
                 order_purchase_timestamp row = Some t \<longrightarrow> t \<le> now"
        and "r = Some d"
      with r have "map_option (\<lambda>t. (now - t) div ns_per_day) (?m c) = Some d" by simp
      with h show "0 \<le> d" by (rule nn) }
  qed
  from keys a b c show ?thesis by blast
qed

text \<open>The sample table, evaluated on day 200.\<close>

theorem rfm_recency_frequency_witness:
  "rfm (200 * ns_per_day) (frame_of sample_orders) =
     [(''c1'', ((Some (105 * ns_per_day), Some 95), 2), 15),
      (''c2'', ((Some (102 * ns_per_day), Some 98), 1), 20)]
   \<and> card {oid. \<exists>row \<in> set (rows (frame_of sample_orders)).
              customer_id row = Some ''c1'' \<and> order_id row = Some oid} = 2"
proof -
  have ev: "rfm (200 * ns_per_day) (frame_of sample_orders) =
     [(''c1'', ((Some (105 * ns_per_day), Some 95), 2), 15),
      (''c2'', ((Some (102 * ns_per_day), Some 98), 1), 20)]"
    by code_simp
  from rfm_recency_frequency [of "200 * ns_per_day" "frame_of sample_orders"]
  have "\<forall>(c, ((m, r), f), mon) \<in> set (rfm (200 * ns_per_day) (frame_of sample_orders)).
          f = card {oid. \<exists>row \<in> set (rows (frame_of sample_orders)).
                     customer_id row = Some c \<and> order_id row = Some oid}"
    by fast
  then have "card {oid. \<exists>row \<in> set (rows (frame_of sample_orders)).
              customer_id row = Some ''c1'' \<and> order_id row = Some oid} = 2"
    unfolding ev by simp
  with ev show ?thesis by blast
qed

subsection \<open>Whole days (lines 272, 295 and 388)\<close>

lemma floor_day: "\<lfloor>rat_of_int d / rat_of_int ns_per_day\<rfloor> = d div ns_per_day"
  by (simp add: floor_divide_of_int_eq)

lemma delivery_delay_step_col:
  "delivery_delay (delivery_delay_step df) =
     Some (map (\<lambda>r. case order_delivered_customer_date r of
                       None \<Rightarrow> None
                     | Some x \<Rightarrow>
                         (case order_estimated_delivery_date r of
                            None \<Rightarrow> None
                          | Some y \<Rightarrow> Some ((x - y) div ns_per_day)))
             (rows df))"
  by (simp add: delivery_delay_step_def series_sub_map dt_days_def ts_sub_def
      split: option.splits)

lemma delivery_category_step_col:
  "delivery_category_step (delivery_delay_step df) =
     Inr ((delivery_delay_step df)
            \<lparr>delivery_category :=
               Some (map (bin_label bins choices) (the (delivery_delay (delivery_delay_step df))))\<rparr>)"
  by (simp add: delivery_category_step_def delivery_delay_step_def pd_cut_bins)

text \<open>
  Claim C10.  The three whole-day columns the script derives are floors of the exact
  quotient of the difference by one day: the shipping duration (line 272), the delivery
  delay (line 388) and the Recency of each customer (line 295), for every row and every
  pair of timestamps in it.  So a row delivered less than 24 hours after the estimated
  date has delay 0 and the category "On Time", and a row delivered twelve hours before
  the estimate has delay \<open>-1\<close>, where division truncating toward zero (\<open>sdiv\<close>) would
  give 0.
\<close>

theorem whole_days_round_down:
  "shipping_time (shipping_time_step df) =
     Some (map (\<lambda>r. case order_delivered_customer_date r of
                       None \<Rightarrow> None
                     | Some x \<Rightarrow>
                         (case order_delivered_carrier_date r of
                            None \<Rightarrow> None
                          | Some y \<Rightarrow> Some \<lfloor>rat_of_int (x - y) / rat_of_int ns_per_day\<rfloor>))
             (rows df))
   \<and> delivery_delay (delivery_delay_step df) =
     Some (map (\<lambda>r. case order_delivered_customer_date r of
                       None \<Rightarrow> None
                     | Some x \<Rightarrow>
                         (case order_estimated_delivery_date r of
                            None \<Rightarrow> None
                          | Some y \<Rightarrow> Some \<lfloor>rat_of_int (x - y) / rat_of_int ns_per_day\<rfloor>))
             (rows df))
   \<and> recency now df =
     map (\<lambda>c. (c, series_max (map order_purchase_timestamp
                                 (filter (\<lambda>r. customer_id r = Some c) (rows df))),
                map_option (\<lambda>t. \<lfloor>rat_of_int (now - t) / rat_of_int ns_per_day\<rfloor>)
                  (series_max (map order_purchase_timestamp
                                 (filter (\<lambda>r. customer_id r = Some c) (rows df))))))
       (group_keys (map customer_id (rows df)))
   \<and> (\<forall>i x y. i < length (rows df)
          \<and> order_delivered_customer_date (rows df ! i) = Some x
          \<and> order_estimated_delivery_date (rows df ! i) = Some y \<longrightarrow>
          (0 \<le> x - y \<and> x - y < ns_per_day \<longrightarrow>
             the (delivery_delay (delivery_delay_step df)) ! i = Some 0
             \<and> (\<exists>df'. delivery_category_step (delivery_delay_step df) = Inr df'
                   \<and> the (delivery_category df') ! i = Some ''On Time''))
          \<and> (x - y = - (12 * ns_per_hour) \<longrightarrow>
               the (delivery_delay (delivery_delay_step df)) ! i = Some (- 1)
               \<and> (x - y) sdiv ns_per_day = 0
               \<and> (\<exists>df'. delivery_category_step (delivery_delay_step df) = Inr df'
                     \<and> the (delivery_category df') ! i = Some ''On Time'')))"
proof -
  have a: "shipping_time (shipping_time_step df) =
     Some (map (\<lambda>r. case order_delivered_customer_date r of
                       None \<Rightarrow> None
                     | Some x \<Rightarrow>
                         (case order_delivered_carrier_date r of
                            None \<Rightarrow> None
                          | Some y \<Rightarrow> Some \<lfloor>rat_of_int (x - y) / rat_of_int ns_per_day\<rfloor>))
             (rows df))"
    unfolding floor_day
    by (simp add: shipping_time_step_def series_sub_map dt_days_def ts_sub_def
        split: option.splits)
  have b: "delivery_delay (delivery_delay_step df) =
     Some (map (\<lambda>r. case order_delivered_customer_date r of
                       None \<Rightarrow> None
                     | Some x \<Rightarrow>
                         (case order_estimated_delivery_date r of
                            None \<Rightarrow> None
                          | Some y \<Rightarrow> Some \<lfloor>rat_of_int (x - y) / rat_of_int ns_per_day\<rfloor>))
             (rows df))"
    unfolding floor_day by (rule delivery_delay_step_col)
  have c: "recency now df =
     map (\<lambda>c. (c, series_max (map order_purchase_timestamp
                                 (filter (\<lambda>r. customer_id r = Some c) (rows df))),
                map_option (\<lambda>t. \<lfloor>rat_of_int (now - t) / rat_of_int ns_per_day\<rfloor>)
                  (series_max (map order_purchase_timestamp
                                 (filter (\<lambda>r. customer_id r = Some c) (rows df))))))
       (group_keys (map customer_id (rows df)))"
    unfolding floor_day recency_eq
    by (simp add: ts_sub_def split: option.split)
  have d: "(0 \<le> x - y \<and> x - y < ns_per_day \<longrightarrow>
             the (delivery_delay (delivery_delay_step df)) ! i = Some 0
             \<and> (\<exists>df'. delivery_category_step (delivery_delay_step df) = Inr df'
                   \<and> the (delivery_category df') ! i = Some ''On Time''))
          \<and> (x - y = - (12 * ns_per_hour) \<longrightarrow>
               the (delivery_delay (delivery_delay_step df)) ! i = Some (- 1)
               \<and> (x - y) sdiv ns_per_day = 0
               \<and> (\<exists>df'. delivery_category_step (delivery_delay_step df) = Inr df'
                     \<and> the (delivery_category df') ! i = Some ''On Time''))"
    if i: "i < length (rows df)"
      and x: "order_delivered_customer_date (rows df ! i) = Some x"
      and y: "order_estimated_delivery_date (rows df ! i) = Some y" for i x y
  proof -
    have cell: "the (delivery_delay (delivery_delay_step df)) ! i = Some ((x - y) div ns_per_day)"
      using i x y by (simp add: delivery_delay_step_col)
    have len: "i < length (the (delivery_delay (delivery_delay_step df)))"
      using i by (simp add: delivery_delay_step_col)
    have cat: "\<exists>df'. delivery_category_step (delivery_delay_step df) = Inr df'
        \<and> the (delivery_category df') ! i = bin_label bins choices (Some ((x - y) div ns_per_day))"
      using len cell by (simp add: delivery_category_step_col)
    have z: "(x - y) div ns_per_day = 0" if "0 \<le> x - y \<and> x - y < ns_per_day"
      using that by (simp add: div_pos_pos_trivial)
    have m: "(x - y) div ns_per_day = - 1 \<and> (x - y) sdiv ns_per_day = 0"
      if "x - y = - (12 * ns_per_hour)"
      using that by (simp add: ns_per_day_def ns_per_hour_def signed_divide_int_def)
    show ?thesis
      using cell cat z m by (auto simp: bin_label_bins)
  qed
  from a b c d show ?thesis by blast
qed

text \<open>Two items of order \<open>o1\<close>: one delivered twelve hours before the estimated date,
  one 23 hours after it; Recency on day 200.\<close>

theorem whole_days_round_down_witness:
  "shipping_time (shipping_time_step (frame_of
      [row1, row1\<lparr>order_delivered_customer_date := Some (104 * ns_per_day + 23 * ns_per_hour)\<rparr>]))
     = Some [Some 2, Some 3]
   \<and> delivery_delay (delivery_delay_step (frame_of
      [row1, row1\<lparr>order_delivered_customer_date := Some (104 * ns_per_day + 23 * ns_per_hour)\<rparr>]))
     = Some [Some (- 1), Some 0]
   \<and> recency (200 * ns_per_day) (frame_of
      [row1, row1\<lparr>order_delivered_customer_date := Some (104 * ns_per_day + 23 * ns_per_hour)\<rparr>])
     = [(''c1'', Some (100 * ns_per_day + 5 * ns_per_hour), Some 99)]
   \<and> (\<exists>df'. delivery_category_step (delivery_delay_step (frame_of
      [row1, row1\<lparr>order_delivered_customer_date := Some (104 * ns_per_day + 23 * ns_per_hour)\<rparr>])) = Inr df'
         \<and> the (delivery_category df') ! 1 = Some ''On Time'')
   \<and> (103 * ns_per_day + 12 * ns_per_hour - 104 * ns_per_day) sdiv ns_per_day = 0"
proof -
  let ?late = "row1\<lparr>order_delivered_customer_date := Some (104 * ns_per_day + 23 * ns_per_hour)\<rparr>"
  let ?df = "frame_of [row1, ?late]"
  note inst = whole_days_round_down [of ?df "200 * ns_per_day"]
  have ev: "shipping_time (shipping_time_step ?df) = Some [Some 2, Some 3]"
    "delivery_delay (delivery_delay_step ?df) = Some [Some (- 1), Some 0]"
    "recency (200 * ns_per_day) ?df = [(''c1'', Some (100 * ns_per_day + 5 * ns_per_hour), Some 99)]"
    by code_simp+
  have h1: "1 < length (rows ?df)
      \<and> order_delivered_customer_date (rows ?df ! 1) = Some (104 * ns_per_day + 23 * ns_per_hour)
      \<and> order_estimated_delivery_date (rows ?df ! 1) = Some (104 * ns_per_day)"
    by (simp add: frame_of_def row1_def blank_row_def)
  have r1: "0 \<le> (104 * ns_per_day + 23 * ns_per_hour) - 104 * ns_per_day
      \<and> (104 * ns_per_day + 23 * ns_per_hour) - 104 * ns_per_day < ns_per_day"
    by (simp add: ns_per_day_def ns_per_hour_def)
  from inst h1 r1
  have late: "\<exists>df'. delivery_category_step (delivery_delay_step ?df) = Inr df'
         \<and> the (delivery_category df') ! 1 = Some ''On Time''"
    by blast
  have h0: "0 < length (rows ?df)
      \<and> order_delivered_customer_date (rows ?df ! 0) = Some (103 * ns_per_day + 12 * ns_per_hour)
      \<and> order_estimated_delivery_date (rows ?df ! 0) = Some (104 * ns_per_day)"
    by (simp add: frame_of_def row1_def blank_row_def)
  have r0: "(103 * ns_per_day + 12 * ns_per_hour) - 104 * ns_per_day = - (12 * ns_per_hour)"
    by (simp add: ns_per_day_def)
  from inst h0 r0
  have early: "(103 * ns_per_day + 12 * ns_per_hour - 104 * ns_per_day) sdiv ns_per_day = 0"
    by blast
  from ev late early show ?thesis by blast
qed

subsection \<open>Mean review scores (lines 404 and 417--418)\<close>

lemma series_mean_defined: "series_mean xs \<noteq> None \<longleftrightarrow> (\<exists>v. Some v \<in> set xs)"
proof -
  have "dropna xs \<noteq> [] \<longleftrightarrow> set (dropna xs) \<noteq> {}" by simp
  also have "\<dots> \<longleftrightarrow> (\<exists>v. Some v \<in> set xs)" by (auto simp: set_dropna)
  finally have "dropna xs \<noteq> [] \<longleftrightarrow> (\<exists>v. Some v \<in> set xs)" .
  moreover have "series_mean xs \<noteq> None \<longleftrightarrow> dropna xs \<noteq> []"
    by (simp add: series_mean_def Let_def)
  ultimately show ?thesis by (simp only:)
qed

lemma group_values_defined:
  "(\<exists>v. Some v \<in> set (map snd (filter (\<lambda>(k, v). k = Some c) (zip keys vals))))
     \<longleftrightarrow> (\<exists>i < min (length keys) (length vals). keys ! i = Some c \<and> vals ! i \<noteq> None)"
proof -
  have "(\<exists>v. Some v \<in> set (map snd (filter (\<lambda>(k, v). k = Some c) (zip keys vals))))
     \<longleftrightarrow> (\<exists>v. (Some c, Some v) \<in> set (zip keys vals))"
    by (auto simp: image_iff)
  also have "\<dots> \<longleftrightarrow> (\<exists>i < min (length keys) (length vals). keys ! i = Some c \<and> vals ! i \<noteq> None)"
    by (auto simp: in_set_zip)
  finally show ?thesis .
qed

lemma review_summary_eq:
  "review_summary df =
     groupby_agg (key2 order_status_x payment_type) (\<lambda>g. series_mean (map review_score g))
       (filter (\<lambda>r. review_score r \<noteq> None) (rows df))"
proof -
  have "notnull (map review_score (rows df)) = map (\<lambda>r. review_score r \<noteq> None) (rows df)"
    by (simp add: notnull_def)
  then show ?thesis
    by (simp only: review_summary_def boolean_index_map)
qed

lemma key2_Some:
  "key2 f g r = Some (a, b) \<longleftrightarrow> f r = Some a \<and> g r = Some b"
  by (simp add: key2_def split: option.split)

text \<open>
  Claim C7, as the code has it.  In the table by order status and payment type every
  key has a contributing row with a review score, and its mean is defined.  In the
  table by delivery category a mean is defined exactly when some row of that category
  has a review score; a key whose group has no such row gets a null mean, never a
  division by zero.  With \<^verbatim>\<open>observed=True\<close> every key has a row; with the default
  \<^verbatim>\<open>observed=False\<close>, which the script uses, the table lists all three categories
  whatever the data.
\<close>

theorem category_means_contributing_rows:
  "(\<forall>((s, p), m) \<in> set (review_summary df).
        m \<noteq> None
        \<and> (\<exists>row \<in> set (rows df). order_status_x row = Some s \<and> payment_type row = Some p
              \<and> review_score row \<noteq> None))
   \<and> (\<forall>(c, m) \<in> set (groupby_categorical_mean observed categories keys vals).
        (m \<noteq> None \<longleftrightarrow>
           (\<exists>i < min (length keys) (length vals). keys ! i = Some c \<and> vals ! i \<noteq> None))
        \<and> (observed \<longrightarrow> Some c \<in> set keys))
   \<and> map fst (groupby_categorical_mean False categories keys vals) = categories
   \<and> (\<forall>cats. delivery_category df = Some cats \<longrightarrow>
        (\<exists>res. average_review_scores df = Inr res \<and> map fst res = choices
           \<and> (\<forall>(c, m) \<in> set res.
                 m \<noteq> None \<longleftrightarrow>
                   (\<exists>i < min (length cats) (length (rows df)).
                       cats ! i = Some c \<and> review_score (rows df ! i) \<noteq> None))))"
proof -
  let ?R = "filter (\<lambda>r. review_score r \<noteq> None) (rows df)"
  let ?key = "key2 order_status_x payment_type"
  have a: "\<forall>((s, p), m) \<in> set (review_summary df).
        m \<noteq> None
        \<and> (\<exists>row \<in> set (rows df). order_status_x row = Some s \<and> payment_type row = Some p
              \<and> review_score row \<noteq> None)"
  proof (clarify, intro conjI)
    fix s p m
    assume "((s, p), m) \<in> set (review_summary df)"
    then have k: "(s, p) \<in> set (group_keys (map ?key ?R))"
      and m: "m = series_mean (map review_score (filter (\<lambda>r. ?key r = Some (s, p)) ?R))"
      by (auto simp: review_summary_eq groupby_agg_def)
    from k have "Some (s, p) \<in> set (map ?key ?R)"
      by (simp add: set_group_keys set_dropna)
    then obtain row where row: "row \<in> set ?R" "?key row = Some (s, p)"
      by (metis (no_types, lifting) imageE list.set_map)
    then obtain v where v: "review_score row = Some v" by auto
    from row v have "Some v \<in> set (map review_score (filter (\<lambda>r. ?key r = Some (s, p)) ?R))"
      by (force simp: image_iff)
    then show "m \<noteq> None"
      unfolding m series_mean_defined by blast
    from row show "\<exists>row \<in> set (rows df). order_status_x row = Some s \<and> payment_type row = Some p
              \<and> review_score row \<noteq> None"
      by (auto simp: key2_Some)
  qed
  have b: "\<forall>(c, m) \<in> set (groupby_categorical_mean obs cs ks vs).
        (m \<noteq> None \<longleftrightarrow>
           (\<exists>i < min (length ks) (length vs). ks ! i = Some c \<and> vs ! i \<noteq> None))
        \<and> (obs \<longrightarrow> Some c \<in> set ks)" for obs and cs :: "'c list" and ks vs
  proof (clarify, intro conjI impI)
    fix c m
    assume cm: "(c, m) \<in> set (groupby_categorical_mean obs cs ks vs)"
    then have m: "m = series_mean (map snd (filter (\<lambda>(k, v). k = Some c) (zip ks vs)))"
      by (auto simp: groupby_categorical_mean_def split: if_splits)
    show "m \<noteq> None \<longleftrightarrow>
           (\<exists>i < min (length ks) (length vs). ks ! i = Some c \<and> vs ! i \<noteq> None)"
      unfolding m series_mean_defined by (rule group_values_defined)
    { assume obs
      with cm show "Some c \<in> set ks"
        by (auto simp: groupby_categorical_mean_def) }
  qed
  have c: "map fst (groupby_categorical_mean False cs ks vs) = cs" for cs :: "'c list" and ks vs
    by (simp add: groupby_categorical_mean_def comp_def)
  have d: "\<forall>cats. delivery_category df = Some cats \<longrightarrow>
        (\<exists>res. average_review_scores df = Inr res \<and> map fst res = choices
           \<and> (\<forall>(c, m) \<in> set res.
                 m \<noteq> None \<longleftrightarrow>
                   (\<exists>i < min (length cats) (length (rows df)).
                       cats ! i = Some c \<and> review_score (rows df ! i) \<noteq> None)))"
  proof (intro allI impI)
    fix cats
    assume dc: "delivery_category df = Some cats"
    let ?res = "groupby_categorical_mean observed_default choices cats (map review_score (rows df))"
    have 1: "average_review_scores df = Inr ?res"
      by (simp add: average_review_scores_def dc)
    have 2: "map fst ?res = choices"
      by (simp add: observed_default_def c)
    have 3: "\<forall>(c, m) \<in> set ?res.
                 m \<noteq> None \<longleftrightarrow>
                   (\<exists>i < min (length cats) (length (rows df)).
                       cats ! i = Some c \<and> review_score (rows df ! i) \<noteq> None)"
      using b [of observed_default choices cats "map review_score (rows df)"]
      by (auto simp: split_def)
    from 1 2 3 show "\<exists>res. average_review_scores df = Inr res \<and> map fst res = choices
           \<and> (\<forall>(c, m) \<in> set res.
                 m \<noteq> None \<longleftrightarrow>
                   (\<exists>i < min (length cats) (length (rows df)).
                       cats ! i = Some c \<and> review_score (rows df ! i) \<noteq> None))"
      by blast
  qed
  from a b [of observed categories keys vals] c [of categories keys vals] d
  show ?thesis by blast
qed

text \<open>The sample table: its two status and payment pairs, and the mean by delivery
  category computed on the frame the script builds, where "On Time" has a reviewed
  row and the other two categories have none.\<close>

theorem category_means_contributing_rows_witness:
  "review_summary (frame_of sample_orders) =
     [((''delivered'', ''credit_card''), Some 5), ((''shipped'', ''credit_card''), Some 3)]
   \<and> (\<exists>row \<in> set (rows (frame_of sample_orders)).
          order_status_x row = Some ''delivered'' \<and> payment_type row = Some ''credit_card''
          \<and> review_score row \<noteq> None)
   \<and> (\<exists>df cats res.
          delivery_category_step (delivery_delay_step (frame_of sample_orders)) = Inr df
          \<and> delivery_category df = Some cats
          \<and> cats = [Some ''On Time'', Some ''On Time'', Some ''Delayed 1-2 Days'', None]
          \<and> average_review_scores df = Inr res
          \<and> res = [(''On Time'', Some 5), (''Delayed 1-2 Days'', None),
                    (''Delayed More Than 2 Days'', None)]
          \<and> map fst res = choices
          \<and> (\<exists>i < min (length cats) (length (rows df)).
                 cats ! i = Some ''On Time'' \<and> review_score (rows df ! i) \<noteq> None)
          \<and> \<not> (\<exists>i < min (length cats) (length (rows df)).
                 cats ! i = Some ''Delayed 1-2 Days'' \<and> review_score (rows df ! i) \<noteq> None)
          \<and> \<not> (\<exists>i < min (length cats) (length (rows df)).
                 cats ! i = Some ''Delayed More Than 2 Days'' \<and> review_score (rows df ! i) \<noteq> None)
          \<and> groupby_categorical_mean True choices cats (map review_score (rows df)) =
                [(''On Time'', Some 5), (''Delayed 1-2 Days'', None)])"
proof -
  let ?cats = "[Some ''On Time'', Some ''On Time'', Some ''Delayed 1-2 Days'', None]"
  let ?df = "(delivery_delay_step (frame_of sample_orders))\<lparr>delivery_category := Some ?cats\<rparr>"
  let ?res = "[(''On Time'', Some 5), (''Delayed 1-2 Days'', None),
                    (''Delayed More Than 2 Days'', None :: rat option)]"
  have ev: "review_summary (frame_of sample_orders) =
     [((''delivered'', ''credit_card''), Some 5), ((''shipped'', ''credit_card''), Some 3)]"
    by code_simp
  have step: "delivery_category_step (delivery_delay_step (frame_of sample_orders)) = Inr ?df"
    by code_simp
  have dc: "delivery_category ?df = Some ?cats"
    by simp
  have avg: "average_review_scores ?df = Inr ?res"
    by code_simp
  have obs: "groupby_categorical_mean True choices ?cats (map review_score (rows ?df)) =
                [(''On Time'', Some 5), (''Delayed 1-2 Days'', None)]"
    by code_simp
  note inst = category_means_contributing_rows
      [of "frame_of sample_orders" True choices ?cats "map review_score (rows ?df)"]
  note inst4 = category_means_contributing_rows
      [of ?df True choices ?cats "map review_score (rows ?df)"]
  from inst
  have "\<forall>((s, p), m) \<in> set (review_summary (frame_of sample_orders)).
          \<exists>row \<in> set (rows (frame_of sample_orders)).
            order_status_x row = Some s \<and> payment_type row = Some p \<and> review_score row \<noteq> None"
    by fast
  then have rs: "\<exists>row \<in> set (rows (frame_of sample_orders)).
          order_status_x row = Some ''delivered'' \<and> payment_type row = Some ''credit_card''
          \<and> review_score row \<noteq> None"
    unfolding ev by simp
  from inst4
  have "\<forall>cats. delivery_category ?df = Some cats \<longrightarrow>
        (\<exists>res. average_review_scores ?df = Inr res \<and> map fst res = choices
           \<and> (\<forall>(c, m) \<in> set res.
                 m \<noteq> None \<longleftrightarrow>
                   (\<exists>i < min (length cats) (length (rows ?df)).
                       cats ! i = Some c \<and> review_score (rows ?df ! i) \<noteq> None)))"
    by (elim conjE)
  then have "\<exists>res. average_review_scores ?df = Inr res \<and> map fst res = choices
           \<and> (\<forall>(c, m) \<in> set res.
                 m \<noteq> None \<longleftrightarrow>
                   (\<exists>i < min (length ?cats) (length (rows ?df)).
                       ?cats ! i = Some c \<and> review_score (rows ?df ! i) \<noteq> None))"
    using dc by (elim allE [of _ ?cats] impE)
  then obtain res where r1: "average_review_scores ?df = Inr res"
    and r2: "map fst res = choices"
    and r3: "\<forall>(c, m) \<in> set res.
                 m \<noteq> None \<longleftrightarrow>
                   (\<exists>i < min (length ?cats) (length (rows ?df)).
                       ?cats ! i = Some c \<and> review_score (rows ?df ! i) \<noteq> None)"
    by (elim exE conjE)
  from r1 avg have res: "res = ?res" by simp
  from r2 have k0: "map fst ?res = choices" unfolding res .
  have m1: "(''On Time'', Some 5) \<in> set ?res"
    and m2: "(''Delayed 1-2 Days'', None) \<in> set ?res"
    and m3: "(''Delayed More Than 2 Days'', None) \<in> set ?res"
    by simp_all
  from r3 [unfolded res] m1
  have k1: "\<exists>i < min (length ?cats) (length (rows ?df)).
                 ?cats ! i = Some ''On Time'' \<and> review_score (rows ?df ! i) \<noteq> None"
    by fast
  from r3 [unfolded res] m2
  have k2: "\<not> (\<exists>i < min (length ?cats) (length (rows ?df)).
                 ?cats ! i = Some ''Delayed 1-2 Days'' \<and> review_score (rows ?df ! i) \<noteq> None)"
    by fast
  from r3 [unfolded res] m3
  have k3: "\<not> (\<exists>i < min (length ?cats) (length (rows ?df)).
                 ?cats ! i = Some ''Delayed More Than 2 Days'' \<and> review_score (rows ?df ! i) \<noteq> None)"
    by fast
  have body: "delivery_category_step (delivery_delay_step (frame_of sample_orders)) = Inr ?df
          \<and> delivery_category ?df = Some ?cats
          \<and> ?cats = [Some ''On Time'', Some ''On Time'', Some ''Delayed 1-2 Days'', None]
          \<and> average_review_scores ?df = Inr ?res
          \<and> ?res = [(''On Time'', Some 5), (''Delayed 1-2 Days'', None),
                    (''Delayed More Than 2 Days'', None)]
          \<and> map fst ?res = choices
          \<and> (\<exists>i < min (length ?cats) (length (rows ?df)).
                 ?cats ! i = Some ''On Time'' \<and> review_score (rows ?df ! i) \<noteq> None)
          \<and> \<not> (\<exists>i < min (length ?cats) (length (rows ?df)).
                 ?cats ! i = Some ''Delayed 1-2 Days'' \<and> review_score (rows ?df ! i) \<noteq> None)
          \<and> \<not> (\<exists>i < min (length ?cats) (length (rows ?df)).
                 ?cats ! i = Some ''Delayed More Than 2 Days'' \<and> review_score (rows ?df ! i) \<noteq> None)
          \<and> groupby_categorical_mean True choices ?cats (map review_score (rows ?df)) =
                [(''On Time'', Some 5), (''Delayed 1-2 Days'', None)]"
    by (intro conjI refl step dc avg k0 k1 k2 k3 obs)
  have ex: "\<exists>df cats res.
          delivery_category_step (delivery_delay_step (frame_of sample_orders)) = Inr df
          \<and> delivery_category df = Some cats
          \<and> cats = [Some ''On Time'', Some ''On Time'', Some ''Delayed 1-2 Days'', None]
          \<and> average_review_scores df = Inr res
          \<and> res = [(''On Time'', Some 5), (''Delayed 1-2 Days'', None),
                    (''Delayed More Than 2 Days'', None)]
          \<and> map fst res = choices
          \<and> (\<exists>i < min (length cats) (length (rows df)).
                 cats ! i = Some ''On Time'' \<and> review_score (rows df ! i) \<noteq> None)
          \<and> \<not> (\<exists>i < min (length cats) (length (rows df)).
                 cats ! i = Some ''Delayed 1-2 Days'' \<and> review_score (rows df ! i) \<noteq> None)
          \<and> \<not> (\<exists>i < min (length cats) (length (rows df)).
                 cats ! i = Some ''Delayed More Than 2 Days'' \<and> review_score (rows df ! i) \<noteq> None)
          \<and> groupby_categorical_mean True choices cats (map review_score (rows df)) =
                [(''On Time'', Some 5), (''Delayed 1-2 Days'', None)]"
    by (rule exI [of _ ?df], rule exI [of _ ?cats], rule exI [of _ ?res]) (rule body)
  from ev rs ex show ?thesis
    by (intro conjI)
qed

text \<open>
  Claim C7 as the specification words it (every key of the result has a contributing
  row) fails for the table by delivery category: no row of the sample table is
  "Delayed More Than 2 Days", and the key is in the result with a null mean.
\<close>

theorem category_mean_of_absent_category:
  "(case script 0 argsort_stable sample_orders (state_options sample_orders) of
      Inl e \<Rightarrow> None
    | Inr d \<Rightarrow> Some (delivery_category (out_df_filtered d), out_average_review_scores d))
   = Some (Some [Some ''On Time'', Some ''On Time'', Some ''Delayed 1-2 Days'', None],
           [(''On Time'', Some 5), (''Delayed 1-2 Days'', None),
            (''Delayed More Than 2 Days'', None)])"
  by code_simp

subsection \<open>The empty selection\<close>

lemma argsort_empty:
  assumes "argsort_ok argsort"
  shows "argsort [] = []"
proof -
  from assms have "mset (argsort []) = mset [0..<length ([] :: nat list)]"
    unfolding argsort_ok_def by blast
  then show ?thesis by simp
qed

lemma value_counts_empty: "argsort_ok argsort \<Longrightarrow> value_counts argsort [] = []"
  by (simp add: value_counts_def sort_values_desc_def nargsort_desc_def
      value_counts_arraylike_def unique_def argsort_empty)

lemma groupby_agg_empty: "groupby_agg key agg [] = []"
  by (simp add: groupby_agg_def group_keys_def unique_def)

lemma df_filtered_frame_of: "df_filtered fd sf = frame_of (rows (df_filtered fd sf))"
  by (simp add: df_filtered_def frame_of_def)

text \<open>
  Claim C5, as the code has it.  An empty selection of states gives an empty
  \<^verbatim>\<open>df_filtered\<close>, and on an empty \<^verbatim>\<open>df_filtered\<close> the script runs to its end without
  raising: the two summary metrics are 0, the mean review score by delivery category
  has its three categories with null means, and every other derived table is empty.
\<close>

theorem empty_selection_empty_results:
  assumes "argsort_ok argsort"
  shows "rows (df_filtered final_dataset []) = []
   \<and> (rows (df_filtered final_dataset state_filter) = [] \<longrightarrow>
        script now argsort final_dataset state_filter =
          Inr \<lparr>out_total_orders = 0, out_total_revenue = 0,
               out_daily_orders = [], out_daily_revenue = [],
               out_top10_product_categories = [], out_order_status_counts = [],
               out_payment_type_counts = [], out_review_score_counts = [],
               out_top10_seller_cities = [], out_top10_customer_cities = [],
               out_top10_product_categories_en = [],
               out_rfm = [], out_geo_points = [], out_cluster_data = [],
               out_average_review_scores =
                 [(''On Time'', None), (''Delayed 1-2 Days'', None),
                  (''Delayed More Than 2 Days'', None)],
               out_review_summary = [],
               out_df_filtered =
                 \<lparr>rows = [], order_purchase_hour = Some [], shipping_time = Some [],
                  delivery_delay = Some [], delivery_category = Some []\<rparr>\<rparr>)"
proof -
  have a: "rows (df_filtered final_dataset []) = []"
    by (simp add: df_filtered_def isin_def boolean_index_map)
  have b: "script now argsort final_dataset state_filter =
          Inr \<lparr>out_total_orders = 0, out_total_revenue = 0,
               out_daily_orders = [], out_daily_revenue = [],
               out_top10_product_categories = [], out_order_status_counts = [],
               out_payment_type_counts = [], out_review_score_counts = [],
               out_top10_seller_cities = [], out_top10_customer_cities = [],
               out_top10_product_categories_en = [],
               out_rfm = [], out_geo_points = [], out_cluster_data = [],
               out_average_review_scores =
                 [(''On Time'', None), (''Delayed 1-2 Days'', None),
                  (''Delayed More Than 2 Days'', None)],
               out_review_summary = [],
               out_df_filtered =
                 \<lparr>rows = [], order_purchase_hour = Some [], shipping_time = Some [],
                  delivery_delay = Some [], delivery_category = Some []\<rparr>\<rparr>"
    if "rows (df_filtered final_dataset state_filter) = []"
  proof -
    from that have df: "df_filtered final_dataset state_filter = frame_of []"
      using df_filtered_frame_of [of final_dataset state_filter] by simp
    have vc: "value_counts argsort [] = []"
      using assms by (rule value_counts_empty)
    have steps: "delivery_category_step
        (delivery_delay_step (redo_datetime_step (shipping_time_step (purchase_hour_step (frame_of [])))))
       = Inr \<lparr>rows = [], order_purchase_hour = Some [], shipping_time = Some [],
                  delivery_delay = Some [], delivery_category = Some []\<rparr>"
      by (simp add: delivery_category_step_def delivery_delay_step_def redo_datetime_step_def
          shipping_time_step_def purchase_hour_step_def frame_of_def pd_cut_bins
          dt_days_def dt_hour_def series_sub_def)
    have avg: "average_review_scores \<lparr>rows = [], order_purchase_hour = Some [], shipping_time = Some [],
                  delivery_delay = Some [], delivery_category = Some []\<rparr>
        = Inr [(''On Time'', None), (''Delayed 1-2 Days'', None),
                  (''Delayed More Than 2 Days'', None)]"
      by (simp add: average_review_scores_def groupby_categorical_mean_def observed_default_def
          choices_def series_mean_def)
    have pure: "total_orders (frame_of []) = 0" "total_revenue (frame_of []) = 0"
      "daily_orders (frame_of []) = []" "daily_revenue (frame_of []) = []"
      "top10_product_categories argsort (frame_of []) = []"
      "order_status_counts argsort (frame_of []) = []"
      "payment_type_counts argsort (frame_of []) = []"
      "review_score_counts argsort (frame_of []) = []"
      "top10_seller_cities argsort (frame_of []) = []"
      "top10_customer_cities argsort (frame_of []) = []"
      "top10_product_categories_en argsort (frame_of []) = []"
      by (simp_all add: total_orders_def total_revenue_def daily_orders_def daily_revenue_def
          top10_product_categories_def order_status_counts_def payment_type_counts_def
          review_score_counts_def top10_seller_cities_def top10_customer_cities_def
          top10_product_categories_en_def frame_of_def nunique_def unique_def series_sum_def
          groupby_agg_empty vc head_def)
    have pure2: "rfm now (shipping_time_step (purchase_hour_step (frame_of []))) = []"
      "geo_points (shipping_time_step (purchase_hour_step (frame_of []))) = []"
      "cluster_data (shipping_time_step (purchase_hour_step (frame_of []))) = []"
      by (simp_all add: rfm_def recency_def frequency_def monetary_def merge_on_def
          geo_points_def cluster_data_def shipping_time_step_def purchase_hour_step_def
          frame_of_def groupby_agg_empty dt_days_def)
    have rs: "review_summary \<lparr>rows = [], order_purchase_hour = Some [], shipping_time = Some [],
                  delivery_delay = Some [], delivery_category = Some []\<rparr> = []"
      by (simp add: review_summary_def boolean_index_def notnull_def groupby_agg_empty)
    show ?thesis
      by (simp add: script_def Let_def df steps avg pure pure2 rs)
  qed
  from a b show ?thesis by blast
qed

text \<open>The sample table with no state selected.\<close>

theorem empty_selection_empty_results_witness:
  "argsort_ok argsort_stable
   \<and> rows (df_filtered sample_orders []) = []
   \<and> (case script 0 argsort_stable sample_orders [] of
        Inl e \<Rightarrow> None
      | Inr d \<Rightarrow> Some (out_total_orders d, out_daily_orders d, out_rfm d, out_review_summary d))
     = Some (0, [], [], [])"
proof -
  from empty_selection_empty_results [OF argsort_stable_ok, of sample_orders "[]" 0]
  show ?thesis
    using argsort_stable_ok by simp
qed

text \<open>
  Claim C5 as the specification words it (every derivation returns an empty table)
  fails for the mean review score by delivery category, which has three rows on the
  empty table.
\<close>

theorem empty_table_category_means_not_empty:
  "rows (df_filtered sample_orders []) = []
   \<and> (case script 0 argsort_stable sample_orders [] of
        Inl e \<Rightarrow> None
      | Inr d \<Rightarrow> Some (out_average_review_scores d))
     = Some [(''On Time'', None), (''Delayed 1-2 Days'', None),
             (''Delayed More Than 2 Days'', None)]"
  by code_simp

subsection \<open>What the derivations change (lines 258, 272 and 384--401)\<close>





end
